theory Spec2Isabelle
  imports Complex_Main "HOL-Library.Multiset"
begin

section \<open>Errors raised by the sync engine\<close>

text \<open>
  A JavaScript exception is a value of \<open>js_error\<close>.  \<open>Error msg\<close> is an
  \<^verbatim>\<open>Error\<close> object with its message, \<open>TypeError msg\<close> the runtime's type error
  (calling a property that is not a function), and \<open>Fault n\<close> a rejection coming from a
  collaborator outside the repository (the database server, the spreadsheet API), numbered
  by the environment.
\<close>

datatype js_error = Error string | TypeError string | ReferenceError string | Fault nat

section \<open>Dead letter queue (sync/dead-letter-queue.ts)\<close>

datatype failureReason = max_retries | non_retryable_error | timeout

record DeadLetterEntry =
  jobId :: string
  payload :: string
  error :: string
  stackTrace :: "string option"
  attemptsMade :: nat
  firstAttemptAt :: int
  lastAttemptAt :: int
  failureReason :: failureReason

text \<open>The private field \<^verbatim>\<open>maxSize\<close> of the class.\<close>

definition maxSize :: nat where
  "maxSize = 1000"

text \<open>
  \<^verbatim>\<open>add\<close>: \<^verbatim>\<open>push\<close> appends at the end, \<^verbatim>\<open>shift\<close> removes the element at
  index 0, and it runs only when the length after the push exceeds \<open>maxSize\<close>.  The state
  of the queue is its \<^verbatim>\<open>entries\<close> array.
\<close>

definition dlq_add :: "'a \<Rightarrow> 'a list \<Rightarrow> 'a list" where
  "dlq_add entry entries =
     (let pushed = entries @ [entry]
      in if length pushed > maxSize then tl pushed else pushed)"

definition dlq_getDepth :: "'a list \<Rightarrow> nat" where
  "dlq_getDepth entries = length entries"

definition dlq_getAll :: "'a list \<Rightarrow> 'a list" where
  "dlq_getAll entries = entries"

text \<open>A fresh queue (\<^verbatim>\<open>entries = []\<close>) after the given calls of \<^verbatim>\<open>add\<close>, in order.\<close>

definition dlq_add_all :: "'a list \<Rightarrow> 'a list" where
  "dlq_add_all es = foldl (\<lambda>entries entry. dlq_add entry entries) [] es"

definition sample_entry :: "nat \<Rightarrow> DeadLetterEntry" where
  "sample_entry n =
     \<lparr>jobId = replicate n CHR ''j'', payload = ''cfg'', error = ''boom'',
      stackTrace = None, attemptsMade = 5, firstAttemptAt = 0, lastAttemptAt = int n,
      failureReason = max_retries\<rparr>"

definition sample_entries :: "DeadLetterEntry list" where
  "sample_entries = map sample_entry [0..<1001]"

section \<open>Circuit breaker (utils/circuit-breaker.ts)\<close>

datatype CircuitBreakerState = CLOSED | OPEN | HALF_OPEN

record CircuitBreakerOptions =
  failureThreshold :: int
  successThreshold :: int
  cb_timeout :: int
  windowDuration :: int

record CircuitBreaker =
  cb_state :: CircuitBreakerState
  failures :: int
  successes :: int
  lastFailureTime :: int
  failureTimestamps :: "int list"
  cb_options :: CircuitBreakerOptions
  cb_name :: string

text \<open>The constructor, with the defaults it applies to the options that are not given.\<close>

definition CircuitBreaker_new ::
  "string \<Rightarrow> int option \<Rightarrow> int option \<Rightarrow> int option \<Rightarrow> int option \<Rightarrow> CircuitBreaker" where
  "CircuitBreaker_new nm ft st tm wd =
     \<lparr>cb_state = CLOSED, failures = 0, successes = 0, lastFailureTime = 0,
      failureTimestamps = [],
      cb_options = \<lparr>failureThreshold = (case ft of None \<Rightarrow> 5 | Some v \<Rightarrow> v),
                    successThreshold = (case st of None \<Rightarrow> 2 | Some v \<Rightarrow> v),
                    cb_timeout = (case tm of None \<Rightarrow> 300000 | Some v \<Rightarrow> v),
                    windowDuration = (case wd of None \<Rightarrow> 60000 | Some v \<Rightarrow> v)\<rparr>,
      cb_name = nm\<rparr>"

definition onSuccess :: "CircuitBreaker \<Rightarrow> CircuitBreaker" where
  "onSuccess cb =
     (let cb1 = cb\<lparr>failureTimestamps := []\<rparr>
      in if cb_state cb1 = HALF_OPEN then
           (let cb2 = cb1\<lparr>successes := successes cb1 + 1\<rparr>
            in if successes cb2 \<ge> successThreshold (cb_options cb2)
               then cb2\<lparr>cb_state := CLOSED, failures := 0\<rparr>
               else cb2)
         else cb1)"

text \<open>\<^verbatim>\<open>onFailure\<close> reads the clock itself; the reading is the first argument.\<close>

definition onFailure :: "int \<Rightarrow> CircuitBreaker \<Rightarrow> CircuitBreaker" where
  "onFailure now cb =
     (let cb1 = cb\<lparr>lastFailureTime := now,
                    failureTimestamps :=
                      filter (\<lambda>timestamp. now - timestamp < windowDuration (cb_options cb))
                        (failureTimestamps cb @ [now])\<rparr>
      in if cb_state cb1 = HALF_OPEN then cb1\<lparr>cb_state := OPEN\<rparr>
         else if int (length (failureTimestamps cb1)) \<ge> failureThreshold (cb_options cb1)
              then cb1\<lparr>cb_state := OPEN\<rparr>
              else cb1)"

text \<open>
  \<^verbatim>\<open>execute(fn)\<close>.  The wrapped function acts on a world \<open>'w\<close> that the breaker cannot
  see: \<open>fn w\<close> is the outcome of the call (\<open>Inl\<close> a rejection, \<open>Inr\<close> the value), the
  world it leaves and the clock reading when it settles.  \<open>now\<close> is the reading of
  \<^verbatim>\<open>Date.now()\<close> on entry.  A world that comes back unchanged for every \<open>fn\<close> shows that
  \<open>fn\<close> was not called.
\<close>

definition execute ::
  "CircuitBreaker \<Rightarrow> int \<Rightarrow> ('w \<Rightarrow> (js_error + 'a) \<times> 'w \<times> int) \<Rightarrow> 'w
     \<Rightarrow> (js_error + 'a) \<times> CircuitBreaker \<times> 'w" where
  "execute cb now fn w =
     (case (if cb_state cb = OPEN then
              (if now - lastFailureTime cb > cb_timeout (cb_options cb)
               then Inr (cb\<lparr>cb_state := HALF_OPEN, successes := 0\<rparr>)
               else Inl (Error (''Circuit breaker '' @ cb_name cb @ '' is OPEN'')))
            else Inr cb) of
        Inl e \<Rightarrow> (Inl e, cb, w)
      | Inr cb1 \<Rightarrow>
          (case fn w of
             (Inr result, w', t) \<Rightarrow> (Inr result, onSuccess cb1, w')
           | (Inl e, w', t) \<Rightarrow> (Inl e, onFailure t cb1, w')))"

definition open_breaker :: CircuitBreaker where
  "open_breaker = (CircuitBreaker_new ''google-sheets'' None None None None)
     \<lparr>cb_state := OPEN, lastFailureTime := 1000\<rparr>"

section \<open>JavaScript values\<close>

text \<open>
  A \<^verbatim>\<open>Date\<close> wraps a time value in milliseconds, or is invalid (its time value is NaN).
  The relational operators compare the time values, and every comparison with NaN is false.
\<close>

datatype Date = Date int | InvalidDate

fun date_gt :: "Date \<Rightarrow> Date \<Rightarrow> bool" where
  "date_gt (Date a) (Date b) = (a > b)"
| "date_gt _ _ = False"

text \<open>
  The values a cell, a column of a database row or a field of a JSON snapshot can hold.
  Numbers are restricted to the integers (a cell or key that holds a fraction, NaN or an
  infinity is outside the model); an object is the list of its own properties in insertion
  order.
\<close>

datatype jsval =
    JUndefined | JNull | JBool bool | JNum int | JStr string | JDate Date
  | JObj "(string \<times> jsval) list"

type_synonym RowData = "(string \<times> jsval) list"

text \<open>A row identifier has the type \<^verbatim>\<open>string | number\<close>.\<close>

datatype rowid = KStr string | KNum int

section \<open>Conflict resolver (sync/conflict-resolver.ts)\<close>

datatype ConflictStrategy = LAST_WRITE_WINS | SHEET_WINS | DB_WINS | MANUAL

datatype winner = sheet | db | manual

record DetectedConflict =
  rowId :: rowid
  sheetValue :: RowData
  dbValue :: RowData
  sheetTimestamp :: Date
  dbTimestamp :: Date
  conflictingColumns :: "string list"

record ResolvedConflict =
  resolved_rowId :: rowid
  winner :: winner
  resolvedValue :: "RowData option"
  strategy :: ConflictStrategy

definition resolveLWW :: "DetectedConflict \<Rightarrow> ResolvedConflict" where
  "resolveLWW conflict =
     (let w = (if date_gt (sheetTimestamp conflict) (dbTimestamp conflict) then sheet else db);
          v = (if w = sheet then sheetValue conflict else dbValue conflict)
      in \<lparr>resolved_rowId = rowId conflict, winner = w, resolvedValue = Some v,
          strategy = LAST_WRITE_WINS\<rparr>)"

definition resolveSheetWins :: "DetectedConflict \<Rightarrow> ResolvedConflict" where
  "resolveSheetWins conflict =
     \<lparr>resolved_rowId = rowId conflict, winner = sheet,
      resolvedValue = Some (sheetValue conflict), strategy = SHEET_WINS\<rparr>"

definition resolveDbWins :: "DetectedConflict \<Rightarrow> ResolvedConflict" where
  "resolveDbWins conflict =
     \<lparr>resolved_rowId = rowId conflict, winner = db,
      resolvedValue = Some (dbValue conflict), strategy = DB_WINS\<rparr>"

definition resolveManual :: "DetectedConflict \<Rightarrow> ResolvedConflict" where
  "resolveManual conflict =
     \<lparr>resolved_rowId = rowId conflict, winner = manual,
      resolvedValue = None, strategy = MANUAL\<rparr>"

fun resolveConflict :: "DetectedConflict \<Rightarrow> ConflictStrategy \<Rightarrow> ResolvedConflict" where
  "resolveConflict conflict LAST_WRITE_WINS = resolveLWW conflict"
| "resolveConflict conflict SHEET_WINS = resolveSheetWins conflict"
| "resolveConflict conflict DB_WINS = resolveDbWins conflict"
| "resolveConflict conflict MANUAL = resolveManual conflict"

text \<open>Row r2 edited on both sides, \<open>name\<close> on each; the time stamps are parameters.\<close>

definition sample_conflict :: "Date \<Rightarrow> Date \<Rightarrow> DetectedConflict" where
  "sample_conflict ts td =
     \<lparr>rowId = KStr ''r2'',
      sheetValue = [(''id'', JStr ''r2''), (''name'', JStr ''Robert'')],
      dbValue = [(''id'', JStr ''r2''), (''name'', JStr ''Bobby'')],
      sheetTimestamp = ts, dbTimestamp = td, conflictingColumns = [''name'']\<rparr>"


section \<open>Retry wrapper (utils/retry.ts)\<close>

record 'e RetryOptions =
  maxAttempts :: int
  baseDelay :: real
  maxDelay :: real
  jitter :: bool
  retryableErrors :: "('e \<Rightarrow> bool) option"

definition DEFAULT_RETRY_OPTIONS :: "'e RetryOptions" where
  "DEFAULT_RETRY_OPTIONS =
     \<lparr>maxAttempts = 5, baseDelay = 1000, maxDelay = 60000, jitter = True,
      retryableErrors = None\<rparr>"

record 'e PartialRetryOptions =
  p_maxAttempts :: "int option"
  p_baseDelay :: "real option"
  p_maxDelay :: "real option"
  p_jitter :: "bool option"
  p_retryableErrors :: "('e \<Rightarrow> bool) option"

definition merge_options :: "'e RetryOptions \<Rightarrow> 'e PartialRetryOptions \<Rightarrow> 'e RetryOptions" where
  "merge_options d p =
     \<lparr>maxAttempts = (case p_maxAttempts p of None \<Rightarrow> maxAttempts d | Some v \<Rightarrow> v),
      baseDelay = (case p_baseDelay p of None \<Rightarrow> baseDelay d | Some v \<Rightarrow> v),
      maxDelay = (case p_maxDelay p of None \<Rightarrow> maxDelay d | Some v \<Rightarrow> v),
      jitter = (case p_jitter p of None \<Rightarrow> jitter d | Some v \<Rightarrow> v),
      retryableErrors =
        (case p_retryableErrors p of None \<Rightarrow> retryableErrors d | Some v \<Rightarrow> Some v)\<rparr>"

definition calculateDelay :: "nat \<Rightarrow> 'e RetryOptions \<Rightarrow> real \<Rightarrow> real" where
  "calculateDelay attempt options random =
     (let exponentialDelay = baseDelay options * 2 ^ attempt;
          delay = min exponentialDelay (maxDelay options)
      in if jitter options then
           (let jitterAmount = delay * 0.2
            in delay + (random * 2 - 1) * jitterAmount)
         else delay)"

datatype retry_event = Invoked nat | Slept real

definition nonretryable :: "'e RetryOptions \<Rightarrow> 'e \<Rightarrow> bool" where
  "nonretryable opts e = (case retryableErrors opts of None \<Rightarrow> False | Some p \<Rightarrow> \<not> p e)"

function retry_from ::
  "(nat \<Rightarrow> 'e + 'a) \<Rightarrow> 'e RetryOptions \<Rightarrow> (nat \<Rightarrow> real) \<Rightarrow> nat \<Rightarrow> 'e option
     \<Rightarrow> ('e option + 'a) \<times> retry_event list" where
  "retry_from fn opts rnd attempt lastError =
     (if int attempt < maxAttempts opts then
        (case fn attempt of
           Inr v \<Rightarrow> (Inr v, [Invoked attempt])
         | Inl e \<Rightarrow>
             if nonretryable opts e then (Inl (Some e), [Invoked attempt])
             else
               (let pause = (if int attempt < maxAttempts opts - 1
                             then [Slept (calculateDelay attempt opts (rnd attempt))]
                             else []);
                    rest = retry_from fn opts rnd (attempt + 1) (Some e)
                in (fst rest, Invoked attempt # pause @ snd rest)))
      else (Inl lastError, []))"
  by pat_completeness auto
termination
  by (relation "measure (\<lambda>(fn, opts, rnd, attempt, lastError). nat (maxAttempts opts - int attempt))")
    auto

declare retry_from.simps [simp del]

definition retry ::
  "(nat \<Rightarrow> 'e + 'a) \<Rightarrow> 'e PartialRetryOptions \<Rightarrow> (nat \<Rightarrow> real)
     \<Rightarrow> ('e option + 'a) \<times> retry_event list" where
  "retry fn options rnd = retry_from fn (merge_options DEFAULT_RETRY_OPTIONS options) rnd 0 None"

definition schedule :: "'e RetryOptions \<Rightarrow> (nat \<Rightarrow> real) \<Rightarrow> nat \<Rightarrow> nat \<Rightarrow> retry_event list" where
  "schedule opts rnd a m =
     concat (map (\<lambda>k. Invoked k #
                    (if Suc k < m then [Slept (calculateDelay k opts (rnd k))] else []))
               [a..<m])"

fun delay_before :: "retry_event list \<Rightarrow> nat \<Rightarrow> real option" where
  "delay_before (Slept d # Invoked j # tr) k =
     (if j = k then Some d else delay_before (Invoked j # tr) k)"
| "delay_before (x # tr) k = delay_before tr k"
| "delay_before [] k = None"

definition failing :: "nat \<Rightarrow> js_error + unit" where
  "failing k = Inl (Error (''503 attempt '' @ replicate k CHR ''I''))"

definition opts3 :: "js_error PartialRetryOptions" where
  "opts3 = \<lparr>p_maxAttempts = Some 3, p_baseDelay = Some 1000, p_maxDelay = Some 60000,
            p_jitter = Some False, p_retryableErrors = Some (\<lambda>e. True)\<rparr>"

definition invocations :: "retry_event list \<Rightarrow> nat list" where
  "invocations tr = concat (map (\<lambda>ev. case ev of Invoked k \<Rightarrow> [k] | Slept d \<Rightarrow> []) tr)"

definition effective :: "'e PartialRetryOptions \<Rightarrow> 'e RetryOptions" where
  "effective options = merge_options DEFAULT_RETRY_OPTIONS options"

section \<open>JavaScript primitives used by the sync code\<close>

text \<open>
  \<^verbatim>\<open>typeof v === 'object'\<close> for a value that is neither \<^verbatim>\<open>null\<close> nor
  \<^verbatim>\<open>undefined\<close>.
\<close>

fun is_object :: "jsval \<Rightarrow> bool" where
  "is_object (JDate d) = True"
| "is_object (JObj ps) = True"
| "is_object v = False"

definition nullish :: "jsval \<Rightarrow> bool" where
  "nullish v = (v = JNull \<or> v = JUndefined)"

text \<open>Decimal digits of a natural number, and \<^verbatim>\<open>String(n)\<close> for an integer.\<close>

fun digits :: "nat \<Rightarrow> string" where
  "digits n = (if n < 10 then [char_of (48 + n)] else digits (n div 10) @ [char_of (48 + n mod 10)])"

declare digits.simps [simp del]

definition int_to_string :: "int \<Rightarrow> string" where
  "int_to_string n = (if n < 0 then CHR ''-'' # digits (nat (- n)) else digits (nat n))"

text \<open>
  \<^verbatim>\<open>String(v)\<close>.  A number below \<^verbatim>\<open>1e21\<close> in absolute value is written in decimal
  digits; from there on the text is the exponent form of the double, which is not computed
  here.  The text of a \<^verbatim>\<open>Date\<close> depends on the time zone of the host.  For these two
  kinds of value the text is that of the parameter \<open>ds\<close>.  A plain object gives
  \<^verbatim>\<open>[object Object]\<close>.
\<close>

fun js_String :: "(jsval \<Rightarrow> string) \<Rightarrow> jsval \<Rightarrow> string" where
  "js_String ds JUndefined = ''undefined''"
| "js_String ds JNull = ''null''"
| "js_String ds (JBool b) = (if b then ''true'' else ''false'')"
| "js_String ds (JNum n) = (if \<bar>n\<bar> < 10 ^ 21 then int_to_string n else ds (JNum n))"
| "js_String ds (JStr s) = s"
| "js_String ds (JDate d) = ds (JDate d)"
| "js_String ds (JObj ps) = ''[object Object]''"

text \<open>
  \<^verbatim>\<open>trim\<close> removes white space and line terminators at both ends; of those, the
  characters below 256 are tab, line feed, vertical tab, form feed, carriage return, space
  and no-break space.
\<close>

definition is_space :: "char \<Rightarrow> bool" where
  "is_space c = (of_char c \<in> {9, 10, 11, 12, 13, 32, 160 :: nat})"

definition trim :: "string \<Rightarrow> string" where
  "trim s = rev (dropWhile is_space (rev (dropWhile is_space s)))"

text \<open>Truthiness: \<^verbatim>\<open>!v\<close> holds for undefined, null, false, 0 and the empty string.\<close>

fun truthy :: "jsval \<Rightarrow> bool" where
  "truthy JUndefined = False"
| "truthy JNull = False"
| "truthy (JBool b) = b"
| "truthy (JNum n) = (n \<noteq> 0)"
| "truthy (JStr s) = (s \<noteq> [])"
| "truthy (JDate d) = True"
| "truthy (JObj ps) = True"

text \<open>
  Property access \<^verbatim>\<open>o[k]\<close> (\<^verbatim>\<open>undefined\<close> when absent) and \<^verbatim>\<open>Object.keys(o)\<close> on a
  list of properties, and on a value (a \<^verbatim>\<open>Date\<close> has no own enumerable property).
\<close>

definition row_get :: "RowData \<Rightarrow> string \<Rightarrow> jsval" where
  "row_get row k = (case map_of row k of None \<Rightarrow> JUndefined | Some v \<Rightarrow> v)"

definition row_keys :: "RowData \<Rightarrow> string list" where
  "row_keys row = map fst row"

text \<open>Assignment \<^verbatim>\<open>o[k] = v\<close>: an existing property keeps its place.\<close>

fun row_set :: "RowData \<Rightarrow> string \<Rightarrow> jsval \<Rightarrow> RowData" where
  "row_set [] k v = [(k, v)]"
| "row_set ((k', v') # ps) k v = (if k' = k then (k, v) # ps else (k', v') # row_set ps k v)"

fun props :: "jsval \<Rightarrow> RowData" where
  "props (JObj ps) = ps"
| "props v = []"

section \<open>Change detector (sync/change-detector.ts)\<close>

record ChangeDetectorOptions =
  primaryKey :: string
  ignoreColumns :: "string list option"

record Update =
  u_identifier :: rowid
  u_data :: RowData

record ChangeDetectionResult =
  inserts :: "RowData list"
  updates :: "Update list"
  deletes :: "rowid list"

text \<open>\<^verbatim>\<open>getPrimaryKeyValue\<close>; \<open>None\<close> is the \<^verbatim>\<open>null\<close> it returns.\<close>

definition getPrimaryKeyValue ::
  "(jsval \<Rightarrow> string) \<Rightarrow> ChangeDetectorOptions \<Rightarrow> RowData \<Rightarrow> rowid option" where
  "getPrimaryKeyValue ds options row =
     (let v = row_get row (primaryKey options)
      in if v = JUndefined \<or> v = JNull \<or> v = JStr [] then None
         else (case v of
                 JStr s \<Rightarrow> Some (KStr s)
               | JNum n \<Rightarrow> Some (KNum n)
               | _ \<Rightarrow> Some (KStr (js_String ds v))))"

text \<open>\<^verbatim>\<open>a.getTime() === b.getTime()\<close>: NaN is not equal to itself.\<close>

fun same_time :: "Date \<Rightarrow> Date \<Rightarrow> bool" where
  "same_time (Date x) (Date y) = (x = y)"
| "same_time _ _ = False"

fun is_date :: "jsval \<Rightarrow> bool" where
  "is_date (JDate d) = True"
| "is_date v = False"

fun date_of :: "jsval \<Rightarrow> Date" where
  "date_of (JDate d) = d"
| "date_of v = InvalidDate"

lemma size_map_of:
  "map_of ps k = Some v \<Longrightarrow> size v < Suc (size_list (size_prod (\<lambda>_. 0) size) ps)"
  by (induction ps) (auto split: if_splits)

lemma size_row_get:
  assumes "key \<in> set (row_keys (props a))"
  shows "size (row_get (props a) key) < size a"
proof (cases a)
  case (JObj ps)
  with assms obtain v where "map_of ps key = Some v"
    by (cases "map_of ps key") (auto simp: row_keys_def map_of_eq_None_iff)
  with JObj show ?thesis
    using size_map_of [of ps key v] by (simp add: row_get_def)
qed (use assms in \<open>simp_all add: row_keys_def\<close>)

function valuesEqual :: "(jsval \<Rightarrow> string) \<Rightarrow> jsval \<Rightarrow> jsval \<Rightarrow> bool" where
  "valuesEqual ds a b =
     (if a = JNull \<or> a = JUndefined then b = JNull \<or> b = JUndefined
      else if b = JNull \<or> b = JUndefined then False
      else if \<not> is_object a \<or> \<not> is_object b then trim (js_String ds a) = trim (js_String ds b)
      else if is_date a \<and> is_date b then same_time (date_of a) (date_of b)
      else (let aKeys = row_keys (props a); bKeys = row_keys (props b)
            in if length aKeys \<noteq> length bKeys then False
               else list_all (\<lambda>key. valuesEqual ds (row_get (props a) key) (row_get (props b) key))
                      aKeys))"
  by pat_completeness auto
termination
  by (relation "measure (\<lambda>(ds, a, b). size a)") (auto simp: size_row_get)

declare valuesEqual.simps [simp del]

text \<open>\<^verbatim>\<open>hasChanged\<close>: the first column outside the ignore set whose values differ decides.\<close>

definition hasChanged ::
  "(jsval \<Rightarrow> string) \<Rightarrow> ChangeDetectorOptions \<Rightarrow> RowData \<Rightarrow> RowData \<Rightarrow> bool" where
  "hasChanged ds options current baseline =
     (let ignoreSet = set (primaryKey options #
                           (case ignoreColumns options of None \<Rightarrow> [] | Some cs \<Rightarrow> cs));
          allColumns = remdups (row_keys current @ row_keys baseline)
      in list_ex (\<lambda>column. column \<notin> ignoreSet
                    \<and> \<not> valuesEqual ds (row_get current column) (row_get baseline column))
           allColumns)"

text \<open>The two \<^verbatim>\<open>Map\<close>s of \<^verbatim>\<open>detect\<close>: a later row with the same key replaces the earlier.\<close>

definition keyed_map ::
  "(jsval \<Rightarrow> string) \<Rightarrow> ChangeDetectorOptions \<Rightarrow> RowData list \<Rightarrow> (rowid \<rightharpoonup> RowData)" where
  "keyed_map ds options rows =
     foldl (\<lambda>m row. case getPrimaryKeyValue ds options row of
                       None \<Rightarrow> m
                     | Some key \<Rightarrow> m(key \<mapsto> row))
       Map.empty rows"

definition detect ::
  "(jsval \<Rightarrow> string) \<Rightarrow> ChangeDetectorOptions \<Rightarrow> RowData list \<Rightarrow> RowData list
     \<Rightarrow> ChangeDetectionResult" where
  "detect ds options current baseline =
     (let baselineMap = keyed_map ds options baseline;
          currentMap = keyed_map ds options current;
          result1 =
            foldl (\<lambda>result row.
                     case getPrimaryKeyValue ds options row of
                       None \<Rightarrow> result
                     | Some key \<Rightarrow>
                         (case baselineMap key of
                            None \<Rightarrow> result\<lparr>inserts := inserts result @ [row]\<rparr>
                          | Some baselineRow \<Rightarrow>
                              if hasChanged ds options row baselineRow
                              then result\<lparr>updates := updates result
                                                         @ [\<lparr>u_identifier = key, u_data = row\<rparr>]\<rparr>
                              else result))
              \<lparr>inserts = [], updates = [], deletes = []\<rparr> current
      in foldl (\<lambda>result row.
                  case getPrimaryKeyValue ds options row of
                    None \<Rightarrow> result
                  | Some key \<Rightarrow>
                      if currentMap key = None
                      then result\<lparr>deletes := deletes result @ [key]\<rparr>
                      else result)
           result1 baseline)"

text \<open>
  The change set in the words of the specification, for comparison with \<open>detect\<close>: the
  current rows whose key no baseline row has; the keys of the baseline rows whose key no
  current row has; and, for the current rows whose key some baseline row has, the row with
  its key when it differs from the last baseline row of that key in a column outside the
  ignore set.  All three keep the order of the sequence they are taken from.
\<close>

definition key_in :: "(jsval \<Rightarrow> string) \<Rightarrow> ChangeDetectorOptions \<Rightarrow> rowid \<Rightarrow> RowData list \<Rightarrow> bool" where
  "key_in ds options k rows = list_ex (\<lambda>r. getPrimaryKeyValue ds options r = Some k) rows"

definition row_differs ::
  "(jsval \<Rightarrow> string) \<Rightarrow> ChangeDetectorOptions \<Rightarrow> RowData \<Rightarrow> RowData \<Rightarrow> bool" where
  "row_differs ds options r b =
     list_ex (\<lambda>c. c \<noteq> primaryKey options
                \<and> c \<notin> set (case ignoreColumns options of None \<Rightarrow> [] | Some cs \<Rightarrow> cs)
                \<and> \<not> valuesEqual ds (row_get r c) (row_get b c))
       (row_keys r @ row_keys b)"

definition spec_inserts ::
  "(jsval \<Rightarrow> string) \<Rightarrow> ChangeDetectorOptions \<Rightarrow> RowData list \<Rightarrow> RowData list \<Rightarrow> RowData list" where
  "spec_inserts ds options current baseline =
     filter (\<lambda>r. case getPrimaryKeyValue ds options r of
                   None \<Rightarrow> False
                 | Some k \<Rightarrow> \<not> key_in ds options k baseline) current"

definition spec_deletes ::
  "(jsval \<Rightarrow> string) \<Rightarrow> ChangeDetectorOptions \<Rightarrow> RowData list \<Rightarrow> RowData list \<Rightarrow> rowid list" where
  "spec_deletes ds options current baseline =
     concat (map (\<lambda>b. case getPrimaryKeyValue ds options b of
                        None \<Rightarrow> []
                      | Some k \<Rightarrow> if key_in ds options k current then [] else [k]) baseline)"

definition spec_updates ::
  "(jsval \<Rightarrow> string) \<Rightarrow> ChangeDetectorOptions \<Rightarrow> RowData list \<Rightarrow> RowData list \<Rightarrow> Update list" where
  "spec_updates ds options current baseline =
     concat (map (\<lambda>r. case getPrimaryKeyValue ds options r of
                        None \<Rightarrow> []
                      | Some k \<Rightarrow>
                          (case find (\<lambda>b. getPrimaryKeyValue ds options b = Some k) (rev baseline) of
                             None \<Rightarrow> []
                           | Some b \<Rightarrow> if row_differs ds options r b
                                       then [\<lparr>u_identifier = k, u_data = r\<rparr>] else []))
               current)"

text \<open>A sheet and a table that differ in one row each way, keyed by \<open>id\<close>.\<close>

definition by_id :: ChangeDetectorOptions where
  "by_id = \<lparr>primaryKey = ''id'', ignoreColumns = None\<rparr>"

definition sheet_rows :: "RowData list" where
  "sheet_rows = [[(''id'', JStr ''r1''), (''name'', JStr ''Alice'')],
                 [(''id'', JStr ''r3''), (''name'', JStr ''Carol'')]]"

definition table_rows :: "RowData list" where
  "table_rows = [[(''id'', JStr ''r1''), (''name'', JStr ''Alicia'')],
                 [(''id'', JStr ''r2''), (''name'', JStr ''Bob'')]]"

definition no_dates :: "jsval \<Rightarrow> string" where
  "no_dates v = ''Invalid Date''"

section \<open>Change-capture log and the target-table adapter (adapters/mysql.adapter.ts)\<close>

datatype operation = INSERT | UPDATE | DELETE

text \<open>
  A row of \<^verbatim>\<open>__sync_change_log\<close> (\<^verbatim>\<open>MySQLChangeLogEntry\<close>); \<open>source_tag = None\<close> is
  SQL NULL, \<open>changed_at\<close> the time stamp in milliseconds.
\<close>

record MySQLChangeLogEntry =
  entry_id :: nat
  table_name :: string
  operation :: operation
  row_data :: RowData
  changed_at :: int
  processed :: bool
  source_tag :: "string option"

text \<open>The options object of \<^verbatim>\<open>getChangeLog\<close>; \<open>None\<close> is a property left out.\<close>

record ChangeLogOptions =
  opt_processed :: "bool option"
  excludeSourceTag :: "string option"
  limit :: "nat option"

text \<open>
  The WHERE clause that \<^verbatim>\<open>getChangeLog\<close> assembles: the table name always, the
  \<open>processed\<close> test when the option is defined, the tag test when the option is a
  non-empty string (the test is on its truthiness).  The table is created with
  \<^verbatim>\<open>COLLATE=utf8mb4_unicode_ci\<close> (schema.sql), so \<^verbatim>\<open>=\<close> and \<^verbatim>\<open>!=\<close> on its two string
  columns compare the weights that the collation gives to the strings, not their
  characters.  The collation is the parameter \<open>wt\<close>, the weight of a string.
\<close>

definition changeLog_where ::
  "(string \<Rightarrow> string) \<Rightarrow> string \<Rightarrow> ChangeLogOptions \<Rightarrow> MySQLChangeLogEntry \<Rightarrow> bool" where
  "changeLog_where wt tableName options e =
     (wt (table_name e) = wt tableName
      \<and> (case opt_processed options of None \<Rightarrow> True | Some p \<Rightarrow> processed e = p)
      \<and> (case excludeSourceTag options of
            None \<Rightarrow> True
          | Some t \<Rightarrow> if t = [] then True
                      else (source_tag e = None
                            \<or> map_option wt (source_tag e) \<noteq> Some (wt t))))"

text \<open>
  The rows the statement returns, given the rows of the log in storage order:
  \<^verbatim>\<open>ORDER BY changed_at ASC\<close>, then \<^verbatim>\<open>LIMIT\<close> when the option is a non-zero number.
  SQL leaves the order of rows with equal \<open>changed_at\<close> open; here they keep their
  storage order.
\<close>

definition getChangeLog_rows ::
  "(string \<Rightarrow> string) \<Rightarrow> string \<Rightarrow> ChangeLogOptions \<Rightarrow> MySQLChangeLogEntry list
     \<Rightarrow> MySQLChangeLogEntry list" where
  "getChangeLog_rows wt tableName options entries =
     (let ordered = sort_key changed_at (filter (changeLog_where wt tableName options) entries)
      in case limit options of
           None \<Rightarrow> ordered
         | Some n \<Rightarrow> if n = 0 then ordered else take n ordered)"

text \<open>The call of the table-to-spreadsheet worker.\<close>

definition worker_scan :: ChangeLogOptions where
  "worker_scan = \<lparr>opt_processed = Some False, excludeSourceTag = Some ''from_sheet'',
                  limit = Some 1000\<rparr>"

text \<open>
  The collation of the examples: the letters A to Z compare without case and spaces at the
  end are ignored, as \<^verbatim>\<open>utf8mb4_unicode_ci\<close> has it on such strings.
\<close>

definition fold_case :: "char \<Rightarrow> char" where
  "fold_case c =
     (if 65 \<le> (of_char c :: nat) \<and> (of_char c :: nat) \<le> 90 then char_of (of_char c + 32 :: nat)
      else c)"

definition simple_collation :: "string \<Rightarrow> string" where
  "simple_collation s = rev (dropWhile (\<lambda>c. c = CHR '' '') (rev (map fold_case s)))"

text \<open>Two entries whose time stamps run against their ids, and a long log.\<close>

definition log_entry :: "nat \<Rightarrow> int \<Rightarrow> string option \<Rightarrow> MySQLChangeLogEntry" where
  "log_entry i t tag =
     \<lparr>entry_id = i, table_name = ''users'', operation = UPDATE,
      row_data = [(''id'', JStr ''r1'')], changed_at = t, processed = False,
      source_tag = tag\<rparr>"

definition skewed_log :: "MySQLChangeLogEntry list" where
  "skewed_log = [log_entry 1 20 (Some ''external''), log_entry 2 10 (Some ''external'')]"

definition long_log :: "MySQLChangeLogEntry list" where
  "long_log = map (\<lambda>i. log_entry i (int i) None) [0..<1001]"

subsection \<open>The database server, its connections and the triggers\<close>

text \<open>
  A statement the adapter sends with \<^verbatim>\<open>connection.execute\<close>, as its parts rather than
  its text: the upsert \<^verbatim>\<open>INSERT ... ON DUPLICATE KEY UPDATE\<close> of a row into a table,
  \<^verbatim>\<open>UPDATE table SET data WHERE where\<close> and \<^verbatim>\<open>DELETE FROM table WHERE where\<close>, the
  predicate being the conjunction of the equalities of \<open>where\<close>.
\<close>

datatype dml =
    InsertRow string RowData
  | UpdateRows string RowData RowData
  | DeleteRows string RowData

fun dml_table :: "dml \<Rightarrow> string" where
  "dml_table (InsertRow t d) = t"
| "dml_table (UpdateRows t d w) = t"
| "dml_table (DeleteRows t w) = t"

text \<open>
  A connection has its session variable \<^verbatim>\<open>@sync_source_tag\<close> (\<open>None\<close> is NULL) and is
  either in autocommit mode (\<open>pending = None\<close>) or inside a transaction, whose statements
  wait, each with the tag it ran under, until the commit applies them or the rollback
  drops them.
\<close>

record connection =
  sync_source_tag :: "string option"
  pending :: "(dml \<times> string option) list option"

record pool =
  conns :: "connection list"
  free :: "nat list"

text \<open>The three triggers of \<^verbatim>\<open>createTriggers(primaryKeyColumn, columns)\<close> on a table.\<close>

record triggers =
  trg_table :: string
  trg_pk :: string
  trg_columns :: "string list"

record mysql_server =
  target_rows :: "RowData list"
  change_log :: "MySQLChangeLogEntry list"
  next_id :: nat
  statements :: nat
  server_time :: int
  sync_triggers :: "triggers option"

text \<open>
  What lies outside the repository is a parameter of the model: how the server evaluates
  a statement on the rows of the target table (\<open>engine\<close> gives the new rows and the row
  events for which the row triggers fire, with the \<^verbatim>\<open>NEW\<close> row, or the \<^verbatim>\<open>OLD\<close> row for
  a delete); which statements the server rejects (\<open>mysql_fault\<close>, by the number of the
  statement); which calls of the spreadsheet API fail (\<open>sheets_fault\<close>, by the number of
  the call); the text of the values that \<open>js_String\<close> leaves to its parameter; the
  identifiers that \<^verbatim>\<open>uuidv4\<close> draws for the operations; the collation of the change
  log; and the ETag header that the spreadsheet API sends with a read of the range, by the
  version of the spreadsheet, the empty string where it sends none.
\<close>

record env =
  engine :: "dml \<Rightarrow> RowData list \<Rightarrow> RowData list \<times> (operation \<times> RowData) list"
  mysql_fault :: "nat \<Rightarrow> bool"
  sheets_fault :: "nat \<Rightarrow> bool"
  value_text :: "jsval \<Rightarrow> string"
  uuid :: "nat \<Rightarrow> string"
  collation :: "string \<Rightarrow> string"
  sheets_etag :: "nat \<Rightarrow> string"

text \<open>\<^verbatim>\<open>JSON_OBJECT\<close> stores SQL NULL as JSON null.\<close>

definition json_of :: "jsval \<Rightarrow> jsval" where
  "json_of v = (if v = JUndefined then JNull else v)"

text \<open>
  The rows the triggers append for the row events of one statement run under the session
  tag \<open>tag\<close>: \<^verbatim>\<open>COALESCE(@sync_source_tag, 'external')\<close> as the source tag, all captured
  columns for an insert or update, the primary key alone for a delete.
\<close>

definition trigger_entries ::
  "mysql_server \<Rightarrow> string option \<Rightarrow> dml \<Rightarrow> (operation \<times> RowData) list
     \<Rightarrow> MySQLChangeLogEntry list" where
  "trigger_entries s tag stmt events =
     (case sync_triggers s of
        None \<Rightarrow> []
      | Some tr \<Rightarrow>
          if dml_table stmt \<noteq> trg_table tr then []
          else map (\<lambda>(i, (op, row)).
                      \<lparr>entry_id = next_id s + i, table_name = trg_table tr, operation = op,
                       row_data = (if op = DELETE
                                   then [(trg_pk tr, json_of (row_get row (trg_pk tr)))]
                                   else map (\<lambda>c. (c, json_of (row_get row c))) (trg_columns tr)),
                       changed_at = server_time s, processed = False,
                       source_tag = Some (case tag of None \<Rightarrow> ''external'' | Some t \<Rightarrow> t)\<rparr>)
                 (enumerate 0 events))"

definition apply_dml :: "env \<Rightarrow> string option \<Rightarrow> dml \<Rightarrow> mysql_server \<Rightarrow> mysql_server" where
  "apply_dml ev tag stmt s =
     (let (rows', events) = engine ev stmt (target_rows s);
          new = trigger_entries s tag stmt events
      in s\<lparr>target_rows := rows', change_log := change_log s @ new,
           next_id := next_id s + length new\<rparr>)"

subsection \<open>The adapter\<close>

text \<open>
  A \<^verbatim>\<open>MySQLAdapter\<close>: its table name, its pool (\<open>None\<close> before \<^verbatim>\<open>connect\<close> and after
  \<^verbatim>\<open>close\<close>) and the server it talks to.
\<close>

record MySQLAdapter =
  tableName :: string
  pool :: "pool option"
  server :: mysql_server

definition connect :: "MySQLAdapter \<Rightarrow> MySQLAdapter" where
  "connect a = (if pool a \<noteq> None then a else a\<lparr>pool := Some \<lparr>conns = [], free = []\<rparr>\<rparr>)"

definition close :: "MySQLAdapter \<Rightarrow> MySQLAdapter" where
  "close a = a\<lparr>pool := None\<rparr>"

definition conn_at :: "pool \<Rightarrow> nat \<Rightarrow> connection" where
  "conn_at p c = (if c < length (conns p) then conns p ! c
                  else \<lparr>sync_source_tag = None, pending = None\<rparr>)"

text \<open>
  \<^verbatim>\<open>this.pool!.getConnection()\<close>: a free connection if there is one, a new one
  otherwise; on a null pool the property access throws.  A connection taken from the pool
  is not handed out again before its \<^verbatim>\<open>release\<close>.
\<close>

definition getConnection :: "MySQLAdapter \<Rightarrow> js_error + (nat \<times> MySQLAdapter)" where
  "getConnection a =
     (case pool a of
        None \<Rightarrow> Inl (TypeError ''Cannot read properties of null (reading getConnection)'')
      | Some p \<Rightarrow>
          (case free p of
             c # cs \<Rightarrow> Inr (c, a\<lparr>pool := Some (p\<lparr>free := cs\<rparr>)\<rparr>)
           | [] \<Rightarrow> Inr (length (conns p),
                        a\<lparr>pool := Some (p\<lparr>conns := conns p
                                           @ [\<lparr>sync_source_tag = None, pending = None\<rparr>]\<rparr>)\<rparr>)))"

definition update_conn :: "nat \<Rightarrow> (connection \<Rightarrow> connection) \<Rightarrow> MySQLAdapter \<Rightarrow> MySQLAdapter" where
  "update_conn c f a =
     (case pool a of
        None \<Rightarrow> a
      | Some p \<Rightarrow> a\<lparr>pool := Some (p\<lparr>conns := (conns p)[c := f (conn_at p c)]\<rparr>)\<rparr>)"

definition release :: "nat \<Rightarrow> MySQLAdapter \<Rightarrow> MySQLAdapter" where
  "release c a = (case pool a of None \<Rightarrow> a | Some p \<Rightarrow> a\<lparr>pool := Some (p\<lparr>free := c # free p\<rparr>)\<rparr>)"

text \<open>\<^verbatim>\<open>SET @sync_source_tag = ?\<close> on a connection.\<close>

definition set_tag :: "nat \<Rightarrow> string option \<Rightarrow> MySQLAdapter \<Rightarrow> MySQLAdapter" where
  "set_tag c t a = update_conn c (\<lambda>cn. cn\<lparr>sync_source_tag := t\<rparr>) a"

definition beginTransaction :: "nat \<Rightarrow> MySQLAdapter \<Rightarrow> MySQLAdapter" where
  "beginTransaction c a = update_conn c (\<lambda>cn. cn\<lparr>pending := Some []\<rparr>) a"

definition rollback :: "nat \<Rightarrow> MySQLAdapter \<Rightarrow> MySQLAdapter" where
  "rollback c a = update_conn c (\<lambda>cn. cn\<lparr>pending := None\<rparr>) a"

definition commit :: "env \<Rightarrow> nat \<Rightarrow> MySQLAdapter \<Rightarrow> MySQLAdapter" where
  "commit ev c a =
     (case pool a of
        None \<Rightarrow> a
      | Some p \<Rightarrow>
          (case pending (conn_at p c) of
             None \<Rightarrow> a
           | Some ws \<Rightarrow>
               (update_conn c (\<lambda>cn. cn\<lparr>pending := None\<rparr>) a)
                 \<lparr>server := foldl (\<lambda>s (stmt, tag). apply_dml ev tag stmt s) (server a) ws\<rparr>))"

text \<open>
  \<^verbatim>\<open>connection.execute\<close> of a statement on connection \<open>c\<close>.  The server counts the
  statement and may reject it.  In autocommit mode the statement takes effect at once, the
  triggers reading the tag of this connection; inside a transaction it joins the pending
  ones.
\<close>

definition connection_execute ::
  "env \<Rightarrow> nat \<Rightarrow> dml \<Rightarrow> MySQLAdapter \<Rightarrow> (js_error + unit) \<times> MySQLAdapter" where
  "connection_execute ev c stmt a =
     (let n = statements (server a);
          a1 = a\<lparr>server := (server a)\<lparr>statements := n + 1\<rparr>\<rparr>
      in if mysql_fault ev n then (Inl (Fault n), a1)
         else (case pool a1 of
                 None \<Rightarrow> (Inl (Error ''connection closed''), a1)
               | Some p \<Rightarrow>
                   (case pending (conn_at p c) of
                      None \<Rightarrow>
                        (Inr (), a1\<lparr>server := apply_dml ev (sync_source_tag (conn_at p c)) stmt
                                                 (server a1)\<rparr>)
                    | Some ws \<Rightarrow>
                        (Inr (), update_conn c
                                   (\<lambda>cn. cn\<lparr>pending := Some (ws @ [(stmt, sync_source_tag cn)])\<rparr>)
                                   a1))))"

text \<open>The \<^verbatim>\<open>metadata\<close> argument of the write operations.\<close>

record WriteMetadata =
  sourceTag :: "string option"
  operationId :: "string option"

definition metadata_tag :: "WriteMetadata option \<Rightarrow> string option" where
  "metadata_tag metadata =
     (case metadata of
        None \<Rightarrow> None
      | Some m \<Rightarrow> (case sourceTag m of None \<Rightarrow> None
                   | Some t \<Rightarrow> if t = [] then None else Some t))"

text \<open>
  \<^verbatim>\<open>escapeId(identifier)\<close> calls \<^verbatim>\<open>identifier.replace\<close>.  On a string that gives the
  quoted identifier, which the statement above carries unquoted; any other value has no
  method \<^verbatim>\<open>replace\<close> and the call throws.
\<close>

fun escapeId :: "jsval \<Rightarrow> js_error + string" where
  "escapeId (JStr s) = Inr s"
| "escapeId v = Inl (TypeError ''identifier.replace is not a function'')"

text \<open>
  The body shared by \<^verbatim>\<open>insert\<close>, \<^verbatim>\<open>update\<close> and \<^verbatim>\<open>delete\<close>: take a connection from
  the pool, set the session tag when the metadata carries one, build and execute the
  statement, and in the \<^verbatim>\<open>finally\<close> block reset the tag and release the connection.
\<close>

definition with_tagged_connection ::
  "env \<Rightarrow> WriteMetadata option \<Rightarrow> (js_error + dml) \<Rightarrow> MySQLAdapter
     \<Rightarrow> (js_error + unit) \<times> MySQLAdapter" where
  "with_tagged_connection ev metadata stmt a =
     (case getConnection a of
        Inl e \<Rightarrow> (Inl e, a)
      | Inr (c, a1) \<Rightarrow>
          (let a2 = (case metadata_tag metadata of
                       None \<Rightarrow> a1
                     | Some t \<Rightarrow> set_tag c (Some t) a1);
               (r, a3) = (case stmt of
                            Inl e \<Rightarrow> (Inl e, a2)
                          | Inr q \<Rightarrow> connection_execute ev c q a2)
           in (r, release c (set_tag c None a3))))"

text \<open>
  \<^verbatim>\<open>insert(tableName, data, metadata?)\<close>.  The first argument is whatever the caller
  passes; the statement exists only if \<^verbatim>\<open>escapeId\<close> accepts it.
\<close>

definition insert_row ::
  "env \<Rightarrow> jsval \<Rightarrow> RowData \<Rightarrow> WriteMetadata option \<Rightarrow> MySQLAdapter
     \<Rightarrow> (js_error + unit) \<times> MySQLAdapter" where
  "insert_row ev tableName_arg data metadata a =
     with_tagged_connection ev metadata
       (case escapeId tableName_arg of Inl e \<Rightarrow> Inl e | Inr t \<Rightarrow> Inr (InsertRow t data)) a"

definition update_rows ::
  "env \<Rightarrow> RowData \<Rightarrow> RowData \<Rightarrow> WriteMetadata option \<Rightarrow> MySQLAdapter
     \<Rightarrow> (js_error + unit) \<times> MySQLAdapter" where
  "update_rows ev data where_eq metadata a =
     with_tagged_connection ev metadata (Inr (UpdateRows (tableName a) data where_eq)) a"

definition delete_rows ::
  "env \<Rightarrow> RowData \<Rightarrow> WriteMetadata option \<Rightarrow> MySQLAdapter
     \<Rightarrow> (js_error + unit) \<times> MySQLAdapter" where
  "delete_rows ev where_eq metadata a =
     with_tagged_connection ev metadata (Inr (DeleteRows (tableName a) where_eq)) a"

text \<open>
  \<^verbatim>\<open>transaction(callback)\<close>: a connection of its own, \<^verbatim>\<open>beginTransaction\<close>, the
  callback with that connection, then \<^verbatim>\<open>commit\<close>, or \<^verbatim>\<open>rollback\<close> and rethrow; the
  connection is released in both cases.
\<close>

definition transaction ::
  "env \<Rightarrow> (nat \<Rightarrow> MySQLAdapter \<Rightarrow> (js_error + 'a) \<times> MySQLAdapter) \<Rightarrow> MySQLAdapter
     \<Rightarrow> (js_error + 'a) \<times> MySQLAdapter" where
  "transaction ev callback a =
     (case pool a of
        None \<Rightarrow> (Inl (Error ''MySQL pool not initialized. Call connect() first.''), a)
      | Some p0 \<Rightarrow>
          (case getConnection a of
             Inl e \<Rightarrow> (Inl e, a)
           | Inr (c, a1) \<Rightarrow>
               (case callback c (beginTransaction c a1) of
                  (Inr result, a2) \<Rightarrow> (Inr result, release c (commit ev c a2))
                | (Inl e, a2) \<Rightarrow> (Inl e, release c (rollback c a2)))))"

text \<open>
  \<^verbatim>\<open>query\<close>: one statement on the pool, counted and possibly rejected by the server;
  \<open>f\<close> gives its rows and the server after it.
\<close>

definition query ::
  "env \<Rightarrow> (mysql_server \<Rightarrow> 'a \<times> mysql_server) \<Rightarrow> MySQLAdapter
     \<Rightarrow> (js_error + 'a) \<times> MySQLAdapter" where
  "query ev f a =
     (case pool a of
        None \<Rightarrow> (Inl (Error ''MySQL pool not initialized. Call connect() first.''), a)
      | Some p \<Rightarrow>
          (let n = statements (server a);
               s1 = (server a)\<lparr>statements := n + 1\<rparr>
           in if mysql_fault ev n then (Inl (Fault n), a\<lparr>server := s1\<rparr>)
              else (let (rows, s2) = f s1 in (Inr rows, a\<lparr>server := s2\<rparr>))))"

definition select_all :: "env \<Rightarrow> MySQLAdapter \<Rightarrow> (js_error + RowData list) \<times> MySQLAdapter" where
  "select_all ev a = query ev (\<lambda>s. (target_rows s, s)) a"

definition getChangeLog ::
  "env \<Rightarrow> ChangeLogOptions \<Rightarrow> MySQLAdapter
     \<Rightarrow> (js_error + MySQLChangeLogEntry list) \<times> MySQLAdapter" where
  "getChangeLog ev options a =
     query ev (\<lambda>s. (getChangeLog_rows (collation ev) (tableName a) options (change_log s), s)) a"

text \<open>\<^verbatim>\<open>markChangesProcessed(ids)\<close>: nothing for an empty list, else one UPDATE.\<close>

definition mark_rows :: "nat list \<Rightarrow> MySQLChangeLogEntry list \<Rightarrow> MySQLChangeLogEntry list" where
  "mark_rows ids entries =
     map (\<lambda>e. if entry_id e \<in> set ids then e\<lparr>processed := True\<rparr> else e) entries"

definition markChangesProcessed ::
  "env \<Rightarrow> nat list \<Rightarrow> MySQLAdapter \<Rightarrow> (js_error + unit) \<times> MySQLAdapter" where
  "markChangesProcessed ev ids a =
     (if ids = [] then (Inr (), a)
      else query ev (\<lambda>s. ((), s\<lparr>change_log := mark_rows ids (change_log s)\<rparr>)) a)"

section \<open>Metadata store, idempotency store and spreadsheet adapter\<close>

record SyncConfig =
  config_id :: string
  sheet_id :: string
  sheet_range :: "string option"
  db_table_name :: string
  column_mapping :: "(string \<times> string) list"
  conflict_strategy :: ConflictStrategy

record SyncState =
  last_sheet_sync_at :: "int option"
  last_db_sync_at :: "int option"
  sheet_etag :: "string option"
  sheet_revision_id :: "string option"
  db_last_change_id :: "nat option"

datatype SyncDirection = sheet_to_db | db_to_sheet

datatype SyncStatus = running | success | failed | partial

record SyncHistory =
  history_id :: nat
  direction :: SyncDirection
  rows_affected :: nat
  conflicts_detected :: nat
  started_at :: int
  completed_at :: "int option"
  status :: SyncStatus
  error_message :: "string option"
  history_message :: "string option"

text \<open>The columns that \<^verbatim>\<open>createConflict\<close> stores.\<close>

record Conflict =
  sync_history_id :: nat
  row_identifier :: string
  sheet_value :: RowData
  db_value :: RowData
  sheet_timestamp :: Date
  db_timestamp :: Date
  resolution_strategy :: ConflictStrategy

text \<open>
  A range \<^verbatim>\<open>Name!A<row>\<close> is kept as the sheet name and the row number, one entry of a
  batch update as the range and the rows written from there on.
\<close>

record cell_range =
  range_sheet :: string
  range_row :: nat

record batch_entry =
  bu_range :: cell_range
  bu_values :: "jsval list list"

datatype sheet_write = BatchUpdate "batch_entry list" | AppendRows string "jsval list list"

text \<open>
  Modelled from the spec: the remote spreadsheet service, which the repository only calls.
  It holds the grid of cells of the synced range, a version that every accepted write
  increases, the number of calls received and the writes it has accepted.  The ETag of a
  version is the parameter \<open>sheets_etag\<close>, empty when the service sends none.  A
  conditional read whose \<^verbatim>\<open>If-None-Match\<close> equals the current ETag is answered "not
  modified"; a batch update writes the given rows from the row of its range on; an append
  adds rows after the last one.
\<close>

record sheets_service =
  grid :: "jsval list list"
  version :: nat
  api_calls :: nat
  writes :: "sheet_write list"

text \<open>The ETags of the examples.\<close>

definition etag_of :: "nat \<Rightarrow> string" where
  "etag_of n = CHR ''v'' # digits n"

fun write_rows :: "jsval list list \<Rightarrow> nat \<Rightarrow> jsval list list \<Rightarrow> jsval list list" where
  "write_rows g r [] = g"
| "write_rows g r (vs # rest) =
     (let i = r - 1;
          g1 = g @ replicate (Suc i - length g) [];
          g2 = g1[i := vs @ drop (length vs) (g1 ! i)]
      in write_rows g2 (Suc r) rest)"

definition apply_write :: "sheet_write \<Rightarrow> jsval list list \<Rightarrow> jsval list list" where
  "apply_write wr g =
     (case wr of
        BatchUpdate us \<Rightarrow> foldl (\<lambda>g u. write_rows g (range_row (bu_range u)) (bu_values u)) g us
      | AppendRows rng rows \<Rightarrow> g @ rows)"

definition service_write :: "env \<Rightarrow> sheet_write \<Rightarrow> sheets_service \<Rightarrow> (js_error + unit) \<times> sheets_service" where
  "service_write ev wr sh =
     (let n = api_calls sh; sh1 = sh\<lparr>api_calls := n + 1\<rparr>
      in if sheets_fault ev n then (Inl (Fault n), sh1)
         else (Inr (), sh1\<lparr>grid := apply_write wr (grid sh1), version := version sh1 + 1,
                            writes := writes sh1 @ [wr]\<rparr>))"

text \<open>
  The adapter (adapters/google-sheets.adapter.ts).  Its rate limiter, circuit breaker and
  retry wrapper decide only whether a call ends in a value or in an error, which is what
  \<open>sheets_fault\<close> stands for.  \<^verbatim>\<open>getRange\<close> sends \<^verbatim>\<open>If-None-Match\<close> when the option
  is a non-empty string; on 304 it returns the option as the ETag, otherwise
  \<^verbatim>\<open>response.headers.etag || ''\<close>.
\<close>

record RangeResult =
  rr_values :: "jsval list list"
  rr_etag :: string
  rr_notModified :: bool

definition getRange ::
  "env \<Rightarrow> string option \<Rightarrow> sheets_service \<Rightarrow> (js_error + RangeResult) \<times> sheets_service" where
  "getRange ev ifNoneMatch sh =
     (let n = api_calls sh; sh1 = sh\<lparr>api_calls := n + 1\<rparr>;
          header = (case ifNoneMatch of None \<Rightarrow> None | Some t \<Rightarrow> if t = [] then None else Some t);
          current = sheets_etag ev (version sh1)
      in if sheets_fault ev n then (Inl (Fault n), sh1)
         else if header = Some current
         then (Inr \<lparr>rr_values = [], rr_etag = (case header of None \<Rightarrow> [] | Some t \<Rightarrow> t),
                    rr_notModified = True\<rparr>, sh1)
         else (Inr \<lparr>rr_values = grid sh1, rr_etag = current, rr_notModified = False\<rparr>, sh1))"

definition batchUpdate :: "env \<Rightarrow> batch_entry list \<Rightarrow> sheets_service \<Rightarrow> (js_error + unit) \<times> sheets_service" where
  "batchUpdate ev us sh = (if us = [] then (Inr (), sh) else service_write ev (BatchUpdate us) sh)"

definition appendRows ::
  "env \<Rightarrow> string \<Rightarrow> jsval list list \<Rightarrow> sheets_service \<Rightarrow> (js_error + unit) \<times> sheets_service" where
  "appendRows ev rng rows sh =
     (if rows = [] then (Inr (), sh) else service_write ev (AppendRows rng rows) sh)"

text \<open>
  Everything a run of a worker reads and changes.  The metadata store (sync state, history
  and conflict rows of the one configuration) and the idempotency store are taken to
  answer every call; the time-to-live of an idempotency key is not represented.
\<close>

record world =
  mysql :: mysql_server
  sheets :: sheets_service
  sync_state :: "SyncState option"
  sync_history :: "SyncHistory list"
  conflict_rows :: "Conflict list"
  redis_keys :: "string list"
  uuids_drawn :: nat
  clock :: int

definition createSyncHistory :: "SyncDirection \<Rightarrow> world \<Rightarrow> nat \<times> world" where
  "createSyncHistory d w =
     (let hid = length (sync_history w)
      in (hid, w\<lparr>sync_history := sync_history w
                   @ [\<lparr>history_id = hid, direction = d, rows_affected = 0,
                       conflicts_detected = 0, started_at = clock w, completed_at = None,
                       status = running, error_message = None, history_message = None\<rparr>]\<rparr>))"

definition updateSyncHistory :: "nat \<Rightarrow> (SyncHistory \<Rightarrow> SyncHistory) \<Rightarrow> world \<Rightarrow> world" where
  "updateSyncHistory hid f w =
     w\<lparr>sync_history := map (\<lambda>h. if history_id h = hid then f h else h) (sync_history w)\<rparr>"

text \<open>
  \<^verbatim>\<open>upsertSyncState\<close>: each parameter is \<^verbatim>\<open>value || null\<close>, and on conflict each column
  keeps its old value where the new one is NULL.
\<close>

definition coalesce :: "'a option \<Rightarrow> 'a option \<Rightarrow> 'a option" where
  "coalesce new old = (case new of None \<Rightarrow> old | Some v \<Rightarrow> Some v)"

definition upsertSyncState :: "SyncState \<Rightarrow> world \<Rightarrow> world" where
  "upsertSyncState p w =
     (let q = p\<lparr>sheet_etag := (case sheet_etag p of None \<Rightarrow> None
                                | Some t \<Rightarrow> if t = [] then None else Some t),
                sheet_revision_id := (case sheet_revision_id p of None \<Rightarrow> None
                                       | Some t \<Rightarrow> if t = [] then None else Some t),
                db_last_change_id := (case db_last_change_id p of None \<Rightarrow> None
                                       | Some i \<Rightarrow> if i = 0 then None else Some i)\<rparr>
      in w\<lparr>sync_state :=
             Some (case sync_state w of
                     None \<Rightarrow> q
                   | Some old \<Rightarrow>
                       \<lparr>last_sheet_sync_at = coalesce (last_sheet_sync_at q) (last_sheet_sync_at old),
                        last_db_sync_at = coalesce (last_db_sync_at q) (last_db_sync_at old),
                        sheet_etag = coalesce (sheet_etag q) (sheet_etag old),
                        sheet_revision_id = coalesce (sheet_revision_id q) (sheet_revision_id old),
                        db_last_change_id = coalesce (db_last_change_id q) (db_last_change_id old)\<rparr>)\<rparr>)"

definition no_state :: SyncState where
  "no_state = \<lparr>last_sheet_sync_at = None, last_db_sync_at = None, sheet_etag = None,
               sheet_revision_id = None, db_last_change_id = None\<rparr>"

definition uuidv4 :: "env \<Rightarrow> world \<Rightarrow> string \<times> world" where
  "uuidv4 ev w = (uuid ev (uuids_drawn w), w\<lparr>uuids_drawn := uuids_drawn w + 1\<rparr>)"

definition isProcessed :: "string \<Rightarrow> world \<Rightarrow> bool" where
  "isProcessed opId w = (''idempotency:'' @ opId \<in> set (redis_keys w))"

definition markProcessed :: "string \<Rightarrow> world \<Rightarrow> world" where
  "markProcessed opId w = w\<lparr>redis_keys := (''idempotency:'' @ opId) # redis_keys w\<rparr>"

text \<open>\<^verbatim>\<open>error instanceof Error ? error.message : String(error)\<close>.\<close>

fun error_text :: "js_error \<Rightarrow> string" where
  "error_text (Error m) = m"
| "error_text (TypeError m) = m"
| "error_text (ReferenceError m) = m"
| "error_text (Fault n) = ''fault '' @ digits n"

section \<open>Helpers shared by the two workers\<close>

function indexToColumnLetter_loop :: "int \<Rightarrow> string \<Rightarrow> string" where
  "indexToColumnLetter_loop index letter =
     (if index \<ge> 0
      then indexToColumnLetter_loop (index div 26 - 1)
             (char_of (nat (index mod 26 + 65)) # letter)
      else letter)"
  by pat_completeness auto
termination
  by (relation "measure (\<lambda>(index, letter). nat (index + 1))") auto

declare indexToColumnLetter_loop.simps [simp del]

definition indexToColumnLetter :: "nat \<Rightarrow> string" where
  "indexToColumnLetter index = indexToColumnLetter_loop (int index) []"

text \<open>\<^verbatim>\<open>mapping[key] || fallback\<close> on the column mapping.\<close>

definition mapping_or :: "(string \<times> string) list \<Rightarrow> string \<Rightarrow> string \<Rightarrow> string" where
  "mapping_or m k fallback =
     (case map_of m k of None \<Rightarrow> fallback | Some n \<Rightarrow> if n = [] then fallback else n)"

definition getPrimaryKeyColumn :: "SyncConfig \<Rightarrow> string" where
  "getPrimaryKeyColumn config = mapping_or (column_mapping config) ''A'' ''id''"

text \<open>
  \<^verbatim>\<open>convertSheetDataToRows\<close>: row 0 gives the number of named columns; a cell beyond
  them lands under the key \<^verbatim>\<open>undefined\<close>.
\<close>

definition convertSheetDataToRows :: "SyncConfig \<Rightarrow> jsval list list \<Rightarrow> RowData list" where
  "convertSheetDataToRows config vals =
     (case vals of
        [] \<Rightarrow> []
      | headers # rest \<Rightarrow>
          (let columnNames =
                 map (\<lambda>index. mapping_or (column_mapping config) (indexToColumnLetter index)
                                 (indexToColumnLetter index))
                   [0..<length headers]
           in map (\<lambda>cells.
                     foldl (\<lambda>row (j, v).
                              row_set row (if j < length columnNames then columnNames ! j
                                           else ''undefined'') v)
                       [] (enumerate 0 cells))
                rest))"

section \<open>Conflict detection (sync/conflict-resolver.ts)\<close>

record Change =
  change_rowId :: rowid
  change_data :: RowData
  change_timestamp :: Date
  change_columns :: "string list"

record ConflictDetectionInput =
  sheetChanges :: "Change list"
  dbChanges :: "Change list"
  lastSyncTime :: Date

definition findOverlappingColumns :: "string list \<Rightarrow> string list \<Rightarrow> string list" where
  "findOverlappingColumns cols1 cols2 = filter (\<lambda>col. col \<in> set cols1) cols2"

text \<open>
  \<^verbatim>\<open>ConflictResolver.detectConflicts\<close>: the last table change of a row is the one
  compared; a conflict needs both changes after the last sync and a common column.
\<close>

definition detectConflicts :: "ConflictDetectionInput \<Rightarrow> DetectedConflict list" where
  "detectConflicts input =
     (let dbChangeMap = foldl (\<lambda>m dbChange. m(change_rowId dbChange \<mapsto> dbChange)) Map.empty
                          (dbChanges input)
      in concat (map (\<lambda>sheetChange.
                        case dbChangeMap (change_rowId sheetChange) of
                          None \<Rightarrow> []
                        | Some dbChange \<Rightarrow>
                            if \<not> date_gt (change_timestamp sheetChange) (lastSyncTime input)
                               \<or> \<not> date_gt (change_timestamp dbChange) (lastSyncTime input)
                            then []
                            else (let overlappingColumns =
                                        findOverlappingColumns (change_columns sheetChange)
                                          (change_columns dbChange)
                                  in if length overlappingColumns > 0
                                     then [\<lparr>rowId = change_rowId sheetChange,
                                            sheetValue = change_data sheetChange,
                                            dbValue = change_data dbChange,
                                            sheetTimestamp = change_timestamp sheetChange,
                                            dbTimestamp = change_timestamp dbChange,
                                            conflictingColumns = overlappingColumns\<rparr>]
                                     else []))
                   (sheetChanges input)))"

section \<open>The scope of the worker modules\<close>

text \<open>
  The two worker modules use two identifiers that none of their imports or declarations
  binds: \<^verbatim>\<open>createChildLogger\<close>, called in the constructor of either worker, and
  \<^verbatim>\<open>googleSheetsAdapter\<close>, the receiver of every call of the spreadsheet adapter (the
  modules import the default export \<^verbatim>\<open>logger\<close> and the class
  \<^verbatim>\<open>GoogleSheetsAdapter\<close>).  Evaluating an unbound identifier throws a
  \<^verbatim>\<open>ReferenceError\<close>.  A scope says which of the two are bound where the module runs;
  \<open>as_written\<close> is the scope of the modules as they stand, \<open>both_bound\<close> that of the
  modules with the two names imported from \<^verbatim>\<open>utils/logger\<close> and
  \<^verbatim>\<open>adapters/google-sheets.adapter\<close>, which export them.
\<close>

record module_scope =
  createChildLogger_bound :: bool
  googleSheetsAdapter_bound :: bool

definition as_written :: module_scope where
  "as_written = \<lparr>createChildLogger_bound = False, googleSheetsAdapter_bound = False\<rparr>"

definition both_bound :: module_scope where
  "both_bound = \<lparr>createChildLogger_bound = True, googleSheetsAdapter_bound = True\<rparr>"

text \<open>
  The constructor of either worker stores the configuration, builds the adapter of the
  table and the change detector, and calls \<^verbatim>\<open>createChildLogger\<close>.  The correlation id
  and the sync id only label log lines and the metadata of the history row, which are not
  represented; their draws are not counted among the identifiers of the operations.
\<close>

definition worker_new :: "module_scope \<Rightarrow> SyncConfig \<Rightarrow> js_error + SyncConfig" where
  "worker_new sc config =
     (if createChildLogger_bound sc then Inr config
      else Inl (ReferenceError ''createChildLogger is not defined''))"

section \<open>Spreadsheet-to-table worker (sync/workers/sheet-to-db.worker.ts)\<close>

text \<open>
  The private \<^verbatim>\<open>detectConflicts\<close> of the worker: whatever the change set and the time
  of the last table-to-spreadsheet sync, it returns the empty array.
\<close>

definition worker_detectConflicts ::
  "ChangeDetectionResult \<Rightarrow> int option \<Rightarrow> DetectedConflict list" where
  "worker_detectConflicts changes lastDbSyncAt = []"

fun rowid_value :: "rowid \<Rightarrow> jsval" where
  "rowid_value (KStr s) = JStr s"
| "rowid_value (KNum n) = JNum n"

definition getRowId :: "(jsval \<Rightarrow> string) \<Rightarrow> SyncConfig \<Rightarrow> RowData \<Rightarrow> rowid" where
  "getRowId ds config row =
     (case row_get row (getPrimaryKeyColumn config) of
        JStr s \<Rightarrow> KStr s
      | JNum n \<Rightarrow> KNum n
      | v \<Rightarrow> KStr (js_String ds v))"

definition rowid_text :: "(jsval \<Rightarrow> string) \<Rightarrow> rowid \<Rightarrow> string" where
  "rowid_text ds k = js_String ds (rowid_value k)"

definition createConflict ::
  "(jsval \<Rightarrow> string) \<Rightarrow> SyncConfig \<Rightarrow> nat \<Rightarrow> DetectedConflict list \<Rightarrow> ResolvedConflict
     \<Rightarrow> world \<Rightarrow> world" where
  "createConflict ds config hid found resolved w =
     (case find (\<lambda>c. rowId c = resolved_rowId resolved) found of
        None \<Rightarrow> w
      | Some conflict \<Rightarrow>
          w\<lparr>conflict_rows := conflict_rows w
               @ [\<lparr>sync_history_id = hid,
                   row_identifier = rowid_text ds (resolved_rowId resolved),
                   sheet_value = sheetValue conflict, db_value = dbValue conflict,
                   sheet_timestamp = sheetTimestamp conflict,
                   db_timestamp = dbTimestamp conflict,
                   resolution_strategy = conflict_strategy config\<rparr>]\<rparr>)"

text \<open>
  Steps 9 and 10: the rows with a conflict leave the change set, and the resolved value of
  every conflict that the spreadsheet wins comes back as an update.
\<close>

definition changesToApply ::
  "(jsval \<Rightarrow> string) \<Rightarrow> SyncConfig \<Rightarrow> ChangeDetectionResult \<Rightarrow> ResolvedConflict list
     \<Rightarrow> ChangeDetectionResult" where
  "changesToApply ds config changes resolvedConflicts =
     (let conflictedRowIds = set (map resolved_rowId resolvedConflicts)
      in \<lparr>inserts = filter (\<lambda>row. getRowId ds config row \<notin> conflictedRowIds) (inserts changes),
          updates = filter (\<lambda>u. u_identifier u \<notin> conflictedRowIds) (updates changes)
                    @ concat (map (\<lambda>resolved.
                                     case resolvedValue resolved of
                                       None \<Rightarrow> []
                                     | Some v \<Rightarrow>
                                         if winner resolved = sheet
                                         then [\<lparr>u_identifier = resolved_rowId resolved,
                                                u_data = v\<rparr>]
                                         else [])
                                resolvedConflicts),
          deletes = filter (\<lambda>i. i \<notin> conflictedRowIds) (deletes changes)\<rparr>)"

text \<open>
  The calls of the adapter that the callback of the transaction makes, in order.  The
  insert is called as \<^verbatim>\<open>insert(row, {sourceTag, operationId})\<close>: the row stands where
  the adapter expects the table name, the metadata object where it expects the data, and
  the metadata parameter is left undefined.
\<close>

definition from_sheet :: "string \<Rightarrow> WriteMetadata" where
  "from_sheet opId = \<lparr>sourceTag = Some ''from_sheet'', operationId = Some opId\<rparr>"

definition write_calls ::
  "env \<Rightarrow> SyncConfig \<Rightarrow> string \<Rightarrow> ChangeDetectionResult
     \<Rightarrow> (MySQLAdapter \<Rightarrow> (js_error + unit) \<times> MySQLAdapter) list" where
  "write_calls ev config opId changes =
     map (\<lambda>row. insert_row ev (JObj row)
                  [(''sourceTag'', JStr ''from_sheet''), (''operationId'', JStr opId)] None)
       (inserts changes)
     @ map (\<lambda>u. update_rows ev (u_data u)
                   [(getPrimaryKeyColumn config, rowid_value (u_identifier u))]
                   (Some (from_sheet opId)))
         (updates changes)
     @ map (\<lambda>deleteId. delete_rows ev [(getPrimaryKeyColumn config, rowid_value deleteId)]
                          (Some (from_sheet opId)))
         (deletes changes)"

text \<open>
  The three loops of the callback run one after the other and count each call that
  returns; the first call that throws ends the callback.
\<close>

fun write_all ::
  "(MySQLAdapter \<Rightarrow> (js_error + unit) \<times> MySQLAdapter) list \<Rightarrow> nat \<Rightarrow> MySQLAdapter
     \<Rightarrow> (js_error + nat) \<times> MySQLAdapter" where
  "write_all [] rowsAffected a = (Inr rowsAffected, a)"
| "write_all (call # calls) rowsAffected a =
     (case call a of
        (Inl e, a') \<Rightarrow> (Inl e, a')
      | (Inr u, a') \<Rightarrow> write_all calls (rowsAffected + 1) a')"

text \<open>Step 11: the writes of one run, inside \<^verbatim>\<open>this.dbAdapter.transaction\<close>.\<close>

definition apply_changes ::
  "env \<Rightarrow> SyncConfig \<Rightarrow> string \<Rightarrow> ChangeDetectionResult \<Rightarrow> MySQLAdapter
     \<Rightarrow> (js_error + nat) \<times> MySQLAdapter" where
  "apply_changes ev config opId changes a =
     transaction ev (\<lambda>connection. write_all (write_calls ev config opId changes) 0) a"

definition finish :: "nat \<Rightarrow> string \<Rightarrow> world \<Rightarrow> world" where
  "finish hid msg w =
     updateSyncHistory hid
       (\<lambda>h. h\<lparr>completed_at := Some (clock w), status := success, history_message := Some msg\<rparr>) w"

text \<open>
  The \<^verbatim>\<open>try\<close> block of \<^verbatim>\<open>execute\<close>, from \<^verbatim>\<open>connect\<close> to the last history update.
  Its first use of \<^verbatim>\<open>googleSheetsAdapter\<close> is the call of \<^verbatim>\<open>getRange\<close>, after the
  connection and the read of the sync state; where the name is unbound, evaluating it
  throws there.
\<close>

definition s2t_try ::
  "module_scope \<Rightarrow> env \<Rightarrow> SyncConfig \<Rightarrow> nat \<Rightarrow> MySQLAdapter \<Rightarrow> world
     \<Rightarrow> (js_error + unit) \<times> MySQLAdapter \<times> world" where
  "s2t_try sc ev config hid a0 w0 =
     (let a1 = connect a0;
          syncState = sync_state w0
      in if \<not> googleSheetsAdapter_bound sc
         then (Inl (ReferenceError ''googleSheetsAdapter is not defined''), a1, w0)
         else
      (let (r, sh) = getRange ev (case syncState of None \<Rightarrow> None | Some st \<Rightarrow> sheet_etag st)
                       (sheets w0);
           w1 = w0\<lparr>sheets := sh\<rparr>
       in case r of
           Inl e \<Rightarrow> (Inl e, a1, w1)
         | Inr sheetData \<Rightarrow>
             if rr_notModified sheetData
             then (Inr (), a1, finish hid ''No changes detected (ETag match)'' w1)
             else
               (let sheetRows = convertSheetDataToRows config (rr_values sheetData)
                in case select_all ev a1 of
                     (Inl e, a2) \<Rightarrow> (Inl e, a2, w1)
                   | (Inr dbRows, a2) \<Rightarrow>
                       (let changes = detect (value_text ev)
                                        \<lparr>primaryKey = getPrimaryKeyColumn config,
                                         ignoreColumns = None\<rparr> sheetRows dbRows
                        in if inserts changes = [] \<and> updates changes = [] \<and> deletes changes = []
                           then (Inr (), a2, finish hid ''No changes detected'' w1)
                           else
                             (let found = worker_detectConflicts changes
                                            (case syncState of None \<Rightarrow> None
                                             | Some st \<Rightarrow> last_db_sync_at st);
                                  resolvedConflicts =
                                    map (\<lambda>c. resolveConflict c (conflict_strategy config)) found;
                                  w2 = foldl (\<lambda>w resolved. createConflict (value_text ev) config hid found
                                                          resolved w)
                                         w1 resolvedConflicts;
                                  toApply = changesToApply (value_text ev) config changes
                                              resolvedConflicts;
                                  (opId, w3) = uuidv4 ev w2
                              in if isProcessed opId w3 then (Inr (), a2, w3)
                                 else
                                   (case apply_changes ev config opId toApply a2 of
                                      (Inl e, a3) \<Rightarrow> (Inl e, a3, w3)
                                    | (Inr rowsAffected, a3) \<Rightarrow>
                                        (let w4 = markProcessed opId w3;
                                             w5 = upsertSyncState
                                                    (no_state\<lparr>last_sheet_sync_at := Some (clock w4),
                                                               sheet_etag := Some (rr_etag sheetData)\<rparr>)
                                                    w4;
                                             w6 = updateSyncHistory hid
                                                    (\<lambda>h. h\<lparr>completed_at := Some (clock w5),
                                                            status := success,
                                                            rows_affected := rowsAffected,
                                                            conflicts_detected :=
                                                              length resolvedConflicts\<rparr>)
                                                    w5
                                         in (Inr (), a3, w6))))))))"

text \<open>
  \<^verbatim>\<open>execute\<close>: the history entry, the \<^verbatim>\<open>try\<close> block, the \<^verbatim>\<open>catch\<close> that marks the
  history failed and rethrows, and the \<^verbatim>\<open>finally\<close> that closes the adapter.
\<close>

definition SheetToDbWorker_execute ::
  "module_scope \<Rightarrow> env \<Rightarrow> SyncConfig \<Rightarrow> world \<Rightarrow> (js_error + unit) \<times> world" where
  "SheetToDbWorker_execute sc ev config w =
     (let (hid, w0) = createSyncHistory sheet_to_db w;
          a0 = \<lparr>tableName = db_table_name config, pool = None, server = mysql w0\<rparr>;
          (r, a, w1) = s2t_try sc ev config hid a0 w0;
          w2 = (case r of
                  Inl e \<Rightarrow> updateSyncHistory hid
                             (\<lambda>h. h\<lparr>completed_at := Some (clock w1), status := failed,
                                     error_message := Some (error_text e)\<rparr>) w1
                | Inr u \<Rightarrow> w1)
      in (r, w2\<lparr>mysql := server (close a)\<rparr>))"

text \<open>
  A run, as the orchestrator makes it: \<^verbatim>\<open>new SheetToDbWorker(config)\<close>, then
  \<^verbatim>\<open>worker.execute()\<close>.  An exception of the constructor leaves everything as it is.
\<close>

definition SheetToDbWorker_run ::
  "module_scope \<Rightarrow> env \<Rightarrow> SyncConfig \<Rightarrow> world \<Rightarrow> (js_error + unit) \<times> world" where
  "SheetToDbWorker_run sc ev config w =
     (case worker_new sc config of
        Inl e \<Rightarrow> (Inl e, w)
      | Inr worker_config \<Rightarrow> SheetToDbWorker_execute sc ev worker_config w)"

section \<open>Table-to-spreadsheet worker (sync/workers/db-to-sheet.worker.ts)\<close>

text \<open>Strings in the order of \<^verbatim>\<open>Array.prototype.sort\<close>, by code units.\<close>

fun str_le :: "string \<Rightarrow> string \<Rightarrow> bool" where
  "str_le [] t = True"
| "str_le (c # s) [] = False"
| "str_le (c # s) (d # t) =
     (if (of_char c :: nat) < of_char d then True
      else if (of_char d :: nat) < of_char c then False
      else str_le s t)"

fun insert_sorted :: "string \<Rightarrow> string list \<Rightarrow> string list" where
  "insert_sorted x [] = [x]"
| "insert_sorted x (y # ys) = (if str_le x y then x # y # ys else y # insert_sorted x ys)"

definition sort_strings :: "string list \<Rightarrow> string list" where
  "sort_strings xs = foldr insert_sorted xs []"

text \<open>Assigning keys to an object one by one: \<^verbatim>\<open>Object.keys\<close> of the column mapping.\<close>

definition mapping_keys :: "(string \<times> string) list \<Rightarrow> string list" where
  "mapping_keys m = remdups (map fst m)"

definition convertRowToSheetFormat :: "SyncConfig \<Rightarrow> RowData \<Rightarrow> jsval list" where
  "convertRowToSheetFormat config row =
     map (\<lambda>letter.
            (let v = row_get row (case map_of (column_mapping config) letter of
                                    None \<Rightarrow> ''undefined'' | Some columnName \<Rightarrow> columnName)
             in if nullish v then JStr [] else v))
       (sort_strings (mapping_keys (column_mapping config)))"

definition getSheetName :: "SyncConfig \<Rightarrow> string" where
  "getSheetName config =
     (let rng = (case sheet_range config of
                   None \<Rightarrow> ''Sheet1'' | Some r \<Rightarrow> if r = [] then ''Sheet1'' else r);
          name = takeWhile (\<lambda>c. c \<noteq> CHR ''!'') rng
      in if name = [] then ''Sheet1'' else name)"

text \<open>
  Step 3: the rows of the spreadsheet by the text of their key, each with its index
  counted from the header row; a later row with the same key replaces the earlier.
\<close>

definition sheetRowMap ::
  "(jsval \<Rightarrow> string) \<Rightarrow> string \<Rightarrow> RowData list \<Rightarrow> (string \<rightharpoonup> nat \<times> RowData)" where
  "sheetRowMap ds pk sheetRows =
     foldl (\<lambda>m (i, row).
              (let rowId = row_get row pk
               in if rowId \<noteq> JUndefined \<and> rowId \<noteq> JNull
                  then m(js_String ds rowId \<mapsto> (i + 1, row)) else m))
       Map.empty (enumerate 0 sheetRows)"

text \<open>
  Step 4, the body of the loop over the fetched entries: an entry whose snapshot has a
  falsy key is skipped; an insert is appended; an update rewrites the row if the
  spreadsheet has it and is appended otherwise; a delete blanks the row if the spreadsheet
  has it.
\<close>

definition plan_entry ::
  "(jsval \<Rightarrow> string) \<Rightarrow> SyncConfig \<Rightarrow> (string \<rightharpoonup> nat \<times> RowData)
     \<Rightarrow> batch_entry list \<times> jsval list list \<Rightarrow> MySQLChangeLogEntry
     \<Rightarrow> batch_entry list \<times> jsval list list" where
  "plan_entry ds config rowMap plan entry =
     (let (batchUpdates, rowsToAppend) = plan;
          rowData = row_data entry;
          rowId = row_get rowData (getPrimaryKeyColumn config)
      in if \<not> truthy rowId then plan
         else (case operation entry of
                 INSERT \<Rightarrow> (batchUpdates, rowsToAppend @ [convertRowToSheetFormat config rowData])
               | UPDATE \<Rightarrow>
                   (case rowMap (js_String ds rowId) of
                      Some (index, existing) \<Rightarrow>
                        (batchUpdates
                           @ [\<lparr>bu_range = \<lparr>range_sheet = getSheetName config,
                                           range_row = index + 1\<rparr>,
                               bu_values = [convertRowToSheetFormat config rowData]\<rparr>],
                         rowsToAppend)
                    | None \<Rightarrow>
                        (batchUpdates, rowsToAppend @ [convertRowToSheetFormat config rowData]))
               | DELETE \<Rightarrow>
                   (case rowMap (js_String ds rowId) of
                      Some (index, existing) \<Rightarrow>
                        (batchUpdates
                           @ [\<lparr>bu_range = \<lparr>range_sheet = getSheetName config,
                                           range_row = index + 1\<rparr>,
                               bu_values = [replicate (length (mapping_keys (column_mapping config)))
                                              (JStr [])]\<rparr>],
                         rowsToAppend)
                    | None \<Rightarrow> plan)))"

definition plan_entries ::
  "(jsval \<Rightarrow> string) \<Rightarrow> SyncConfig \<Rightarrow> (string \<rightharpoonup> nat \<times> RowData)
     \<Rightarrow> MySQLChangeLogEntry list \<Rightarrow> batch_entry list \<times> jsval list list" where
  "plan_entries ds config rowMap changeLogEntries =
     foldl (plan_entry ds config rowMap) ([], []) changeLogEntries"

text \<open>Steps 5 to 8 once the plan is made; \<open>Inl\<close> is the exception of the failing call.\<close>

definition t2s_apply ::
  "env \<Rightarrow> SyncConfig \<Rightarrow> nat \<Rightarrow> string \<Rightarrow> MySQLChangeLogEntry list
     \<Rightarrow> batch_entry list \<times> jsval list list \<Rightarrow> MySQLAdapter \<Rightarrow> world
     \<Rightarrow> (js_error + unit) \<times> MySQLAdapter \<times> world" where
  "t2s_apply ev config hid opId changeLogEntries plan a w =
     (let (batchUpdates, rowsToAppend) = plan;
          (r1, sh1) = batchUpdate ev batchUpdates (sheets w);
          w1 = w\<lparr>sheets := sh1\<rparr>
      in case r1 of
           Inl e \<Rightarrow> (Inl e, a, w1)
         | Inr u1 \<Rightarrow>
             (let (r2, sh2) = appendRows ev
                                (case sheet_range config of
                                   None \<Rightarrow> ''Sheet1'' | Some r \<Rightarrow> if r = [] then ''Sheet1'' else r)
                                rowsToAppend (sheets w1);
                  w2 = w1\<lparr>sheets := sh2\<rparr>
              in case r2 of
                   Inl e \<Rightarrow> (Inl e, a, w2)
                 | Inr u2 \<Rightarrow>
                     (let rowsAffected = length batchUpdates + length rowsToAppend;
                          changeLogIds = map entry_id changeLogEntries
                      in case markChangesProcessed ev changeLogIds a of
                           (Inl e, a1) \<Rightarrow> (Inl e, a1, w2)
                         | (Inr u3, a1) \<Rightarrow>
                             (let w3 = markProcessed opId w2;
                                  w4 = upsertSyncState
                                         (no_state\<lparr>last_db_sync_at := Some (clock w3),
                                                    db_last_change_id :=
                                                      (if changeLogEntries = [] then None
                                                       else Some (entry_id (last changeLogEntries)))\<rparr>)
                                         w3;
                                  w5 = updateSyncHistory hid
                                         (\<lambda>h. h\<lparr>completed_at := Some (clock w4), status := success,
                                                 rows_affected := rowsAffected,
                                                 conflicts_detected := 0\<rparr>)
                                         w4
                              in (Inr (), a1, w5)))))"

text \<open>
  The \<^verbatim>\<open>try\<close> block of \<^verbatim>\<open>execute\<close>.  It returns before any use of
  \<^verbatim>\<open>googleSheetsAdapter\<close> when the scan finds no entry; otherwise the first use is the
  call of \<^verbatim>\<open>getRange\<close>, which throws where the name is unbound.  The later calls of
  the adapter are reached only where it is bound.
\<close>

definition t2s_try ::
  "module_scope \<Rightarrow> env \<Rightarrow> SyncConfig \<Rightarrow> nat \<Rightarrow> MySQLAdapter \<Rightarrow> world
     \<Rightarrow> (js_error + unit) \<times> MySQLAdapter \<times> world" where
  "t2s_try sc ev config hid a0 w0 =
     (case getChangeLog ev worker_scan (connect a0) of
        (Inl e, a1) \<Rightarrow> (Inl e, a1, w0)
      | (Inr changeLogEntries, a1) \<Rightarrow>
          if changeLogEntries = [] then (Inr (), a1, finish hid ''No changes detected'' w0)
          else if \<not> googleSheetsAdapter_bound sc
          then (Inl (ReferenceError ''googleSheetsAdapter is not defined''), a1, w0)
          else
            (let (r, sh) = getRange ev None (sheets w0);
                 w1 = w0\<lparr>sheets := sh\<rparr>
             in case r of
                  Inl e \<Rightarrow> (Inl e, a1, w1)
                | Inr sheetData \<Rightarrow>
                    (let sheetRows = convertSheetDataToRows config (rr_values sheetData);
                         rowMap = sheetRowMap (value_text ev) (getPrimaryKeyColumn config) sheetRows;
                         (opId, w2) = uuidv4 ev w1
                     in if isProcessed opId w2 then (Inr (), a1, w2)
                        else t2s_apply ev config hid opId changeLogEntries
                               (plan_entries (value_text ev) config rowMap changeLogEntries)
                               a1 w2)))"

definition DbToSheetWorker_execute ::
  "module_scope \<Rightarrow> env \<Rightarrow> SyncConfig \<Rightarrow> world \<Rightarrow> (js_error + unit) \<times> world" where
  "DbToSheetWorker_execute sc ev config w =
     (let (hid, w0) = createSyncHistory db_to_sheet w;
          a0 = \<lparr>tableName = db_table_name config, pool = None, server = mysql w0\<rparr>;
          (r, a, w1) = t2s_try sc ev config hid a0 w0;
          w2 = (case r of
                  Inl e \<Rightarrow> updateSyncHistory hid
                             (\<lambda>h. h\<lparr>completed_at := Some (clock w1), status := failed,
                                     error_message := Some (error_text e)\<rparr>) w1
                | Inr u \<Rightarrow> w1)
      in (r, w2\<lparr>mysql := server (close a)\<rparr>))"

text \<open>A run: \<^verbatim>\<open>new DbToSheetWorker(config)\<close>, then \<^verbatim>\<open>worker.execute()\<close>.\<close>

definition DbToSheetWorker_run ::
  "module_scope \<Rightarrow> env \<Rightarrow> SyncConfig \<Rightarrow> world \<Rightarrow> (js_error + unit) \<times> world" where
  "DbToSheetWorker_run sc ev config w =
     (case worker_new sc config of
        Inl e \<Rightarrow> (Inl e, w)
      | Inr worker_config \<Rightarrow> DbToSheetWorker_execute sc ev worker_config w)"

section \<open>Invariants used in the proofs\<close>

text \<open>
  The state of a pool between two calls of the adapter: the free connections are distinct,
  exist, are in autocommit mode and have no session tag; no connection holds a pending
  statement.
\<close>

definition pool_ok :: "pool \<Rightarrow> bool" where
  "pool_ok p =
     (distinct (free p)
      \<and> (\<forall>c\<in>set (free p). c < length (conns p) \<and> pending (conns p ! c) = None
                              \<and> sync_source_tag (conns p ! c) = None)
      \<and> (\<forall>cn\<in>set (conns p). pending cn = None \<or> pending cn = Some []))"

definition adapter_ok :: "MySQLAdapter \<Rightarrow> bool" where
  "adapter_ok a = (case pool a of None \<Rightarrow> False | Some p \<Rightarrow> pool_ok p)"

text \<open>The log \<open>L'\<close> is the log \<open>L\<close> followed by entries that all carry the tag \<open>t\<close>.\<close>

definition tagged_growth ::
  "string \<Rightarrow> MySQLChangeLogEntry list \<Rightarrow> MySQLChangeLogEntry list \<Rightarrow> bool" where
  "tagged_growth t L L' = (\<exists>new. L' = L @ new \<and> (\<forall>e\<in>set new. source_tag e = Some t))"

text \<open>
  A call of the adapter that keeps the pool in order and adds to the log only entries
  tagged \<open>t\<close>.
\<close>

definition tagged_call ::
  "string \<Rightarrow> (MySQLAdapter \<Rightarrow> (js_error + 'a) \<times> MySQLAdapter) \<Rightarrow> bool" where
  "tagged_call t f =
     (\<forall>a r a'. adapter_ok a \<longrightarrow> f a = (r, a') \<longrightarrow>
        adapter_ok a' \<and> tableName a' = tableName a
        \<and> tagged_growth t (change_log (server a)) (change_log (server a')))"



text \<open>Runs of the two workers, one after the other, on a world nobody else writes to.\<close>

datatype run = SheetToDb | DbToSheet




section \<open>A small deployment used in the examples\<close>

text \<open>
  An example server for a table whose key column is \<open>pk\<close>.  A WHERE clause matches a
  row when the row has the given value in each named column; an update overwrites the
  named columns of every matching row and a delete removes the matching rows; the upsert
  updates the rows with the key of the new row or, if there is none, adds the row.  Each
  row touched raises one row event.
\<close>

definition matches :: "RowData \<Rightarrow> RowData \<Rightarrow> bool" where
  "matches where_eq row = list_all (\<lambda>(k, v). row_get row k = v) where_eq"

definition overwrite :: "RowData \<Rightarrow> RowData \<Rightarrow> RowData" where
  "overwrite d row = foldl (\<lambda>r (k, v). row_set r k v) row d"

definition update_matching ::
  "RowData \<Rightarrow> RowData \<Rightarrow> RowData list \<Rightarrow> RowData list \<times> (operation \<times> RowData) list" where
  "update_matching d w rows =
     (map (\<lambda>r. if matches w r then overwrite d r else r) rows,
      map (\<lambda>r. (UPDATE, overwrite d r)) (filter (matches w) rows))"

fun simple_engine ::
  "string \<Rightarrow> dml \<Rightarrow> RowData list \<Rightarrow> RowData list \<times> (operation \<times> RowData) list" where
  "simple_engine pk (UpdateRows t d w) rows = update_matching d w rows"
| "simple_engine pk (DeleteRows t w) rows =
     (filter (\<lambda>r. \<not> matches w r) rows, map (\<lambda>r. (DELETE, r)) (filter (matches w) rows))"
| "simple_engine pk (InsertRow t d) rows =
     (if list_ex (matches [(pk, row_get d pk)]) rows
      then update_matching d [(pk, row_get d pk)] rows
      else (rows @ [d], [(INSERT, d)]))"

definition users_config :: SyncConfig where
  "users_config =
     \<lparr>config_id = ''cfg'', sheet_id = ''sheet-1'', sheet_range = None,
      db_table_name = ''users'', column_mapping = [(''A'', ''id''), (''B'', ''name'')],
      conflict_strategy = LAST_WRITE_WINS\<rparr>"

text \<open>An environment in which no call fails, and one whose server rejects statement 2.\<close>

definition calm :: env where
  "calm = \<lparr>engine = simple_engine ''id'', mysql_fault = (\<lambda>n. False),
           sheets_fault = (\<lambda>n. False), value_text = no_dates,
           uuid = (\<lambda>n. ''op-'' @ digits n), collation = simple_collation,
           sheets_etag = etag_of\<rparr>"

definition second_write_fails :: env where
  "second_write_fails = calm\<lparr>mysql_fault := (\<lambda>n. n = 2)\<rparr>"

text \<open>
  Row r2 was edited on both sides after the last sync at time 100: the spreadsheet says
  Robert, and another writer set the table to Bobby at time 200, which the trigger logged
  with the tag \<open>external\<close>.
\<close>

definition both_edited :: world where
  "both_edited =
     \<lparr>mysql = \<lparr>target_rows = [[(''id'', JStr ''r2''), (''name'', JStr ''Bobby'')]],
               change_log = [\<lparr>entry_id = 1, table_name = ''users'', operation = UPDATE,
                              row_data = [(''id'', JStr ''r2''), (''name'', JStr ''Bobby'')],
                              changed_at = 200, processed = False,
                              source_tag = Some ''external''\<rparr>],
               next_id = 2, statements = 0, server_time = 300,
               sync_triggers = Some \<lparr>trg_table = ''users'', trg_pk = ''id'',
                                      trg_columns = [''id'', ''name'']\<rparr>\<rparr>,
      sheets = \<lparr>grid = [[JStr ''id'', JStr ''name''], [JStr ''r2'', JStr ''Robert'']],
                version = 1, api_calls = 0, writes = []\<rparr>,
      sync_state = Some \<lparr>last_sheet_sync_at = Some 100, last_db_sync_at = Some 100,
                         sheet_etag = Some ''v0'', sheet_revision_id = None,
                         db_last_change_id = None\<rparr>,
      sync_history = [], conflict_rows = [], redis_keys = [], uuids_drawn = 0, clock = 300\<rparr>"

text \<open>The same row as the input of \<^verbatim>\<open>ConflictResolver.detectConflicts\<close>.\<close>

definition both_edited_input :: ConflictDetectionInput where
  "both_edited_input =
     \<lparr>sheetChanges = [\<lparr>change_rowId = KStr ''r2'',
                        change_data = [(''id'', JStr ''r2''), (''name'', JStr ''Robert'')],
                        change_timestamp = Date 300, change_columns = [''id'', ''name'']\<rparr>],
      dbChanges = [\<lparr>change_rowId = KStr ''r2'',
                     change_data = [(''id'', JStr ''r2''), (''name'', JStr ''Bobby'')],
                     change_timestamp = Date 200, change_columns = [''id'', ''name'']\<rparr>],
      lastSyncTime = Date 100\<rparr>"

text \<open>Two rows of the spreadsheet differ from the table; nothing else is pending.\<close>

definition two_edits :: world where
  "two_edits =
     \<lparr>mysql = \<lparr>target_rows = [[(''id'', JStr ''r1''), (''name'', JStr ''Al'')],
                              [(''id'', JStr ''r2''), (''name'', JStr ''Bo'')]],
               change_log = [], next_id = 1, statements = 0, server_time = 300,
               sync_triggers = Some \<lparr>trg_table = ''users'', trg_pk = ''id'',
                                      trg_columns = [''id'', ''name'']\<rparr>\<rparr>,
      sheets = \<lparr>grid = [[JStr ''id'', JStr ''name''], [JStr ''r1'', JStr ''Alice''],
                        [JStr ''r2'', JStr ''Bob'']],
                version = 1, api_calls = 0, writes = []\<rparr>,
      sync_state = None,
      sync_history = [], conflict_rows = [], redis_keys = [], uuids_drawn = 0, clock = 300\<rparr>"

text \<open>The worlds that the runs of the first cycle and the next run leave from \<open>both_edited\<close>.\<close>

definition logged :: "nat \<Rightarrow> string \<Rightarrow> int \<Rightarrow> bool \<Rightarrow> string \<Rightarrow> MySQLChangeLogEntry" where
  "logged i nm t p tag =
     \<lparr>entry_id = i, table_name = ''users'', operation = UPDATE,
      row_data = [(''id'', JStr ''r2''), (''name'', JStr nm)],
      changed_at = t, processed = p, source_tag = Some tag\<rparr>"

definition ran :: "nat \<Rightarrow> SyncDirection \<Rightarrow> nat \<Rightarrow> SyncHistory" where
  "ran i d n =
     \<lparr>history_id = i, direction = d, rows_affected = n, conflicts_detected = 0,
      started_at = 300, completed_at = Some 300, status = success, error_message = None,
      history_message = None\<rparr>"

definition users_triggers :: triggers where
  "users_triggers = \<lparr>trg_table = ''users'', trg_pk = ''id'', trg_columns = [''id'', ''name'']\<rparr>"

definition after_first_s2t :: world where
  "after_first_s2t =
     \<lparr>mysql = \<lparr>target_rows = [[(''id'', JStr ''r2''), (''name'', JStr ''Robert'')]],
               change_log = [logged 1 ''Bobby'' 200 False ''external'',
                             logged 2 ''Robert'' 300 False ''from_sheet''],
               next_id = 3, statements = 2, server_time = 300,
               sync_triggers = Some users_triggers\<rparr>,
      sheets = \<lparr>grid = [[JStr ''id'', JStr ''name''], [JStr ''r2'', JStr ''Robert'']],
                version = 1, api_calls = 1, writes = []\<rparr>,
      sync_state = Some \<lparr>last_sheet_sync_at = Some 300, last_db_sync_at = Some 100,
                         sheet_etag = Some ''v1'', sheet_revision_id = None,
                         db_last_change_id = None\<rparr>,
      sync_history = [ran 0 sheet_to_db 1], conflict_rows = [],
      redis_keys = [''idempotency:op-0''], uuids_drawn = 1, clock = 300\<rparr>"

definition after_first_t2s :: world where
  "after_first_t2s =
     \<lparr>mysql = \<lparr>target_rows = [[(''id'', JStr ''r2''), (''name'', JStr ''Robert'')]],
               change_log = [logged 1 ''Bobby'' 200 True ''external'',
                             logged 2 ''Robert'' 300 False ''from_sheet''],
               next_id = 3, statements = 4, server_time = 300,
               sync_triggers = Some users_triggers\<rparr>,
      sheets = \<lparr>grid = [[JStr ''id'', JStr ''name''], [JStr ''r2'', JStr ''Bobby'']],
                version = 2, api_calls = 3,
                writes = [BatchUpdate [\<lparr>bu_range = \<lparr>range_sheet = ''Sheet1'', range_row = 2\<rparr>,
                                        bu_values = [[JStr ''r2'', JStr ''Bobby'']]\<rparr>]]\<rparr>,
      sync_state = Some \<lparr>last_sheet_sync_at = Some 300, last_db_sync_at = Some 300,
                         sheet_etag = Some ''v1'', sheet_revision_id = None,
                         db_last_change_id = Some 1\<rparr>,
      sync_history = [ran 0 sheet_to_db 1, ran 1 db_to_sheet 1], conflict_rows = [],
      redis_keys = [''idempotency:op-1'', ''idempotency:op-0''], uuids_drawn = 2,
      clock = 300\<rparr>"

definition after_second_s2t :: world where
  "after_second_s2t =
     \<lparr>mysql = \<lparr>target_rows = [[(''id'', JStr ''r2''), (''name'', JStr ''Bobby'')]],
               change_log = [logged 1 ''Bobby'' 200 True ''external'',
                             logged 2 ''Robert'' 300 False ''from_sheet'',
                             logged 3 ''Bobby'' 300 False ''from_sheet''],
               next_id = 4, statements = 6, server_time = 300,
               sync_triggers = Some users_triggers\<rparr>,
      sheets = \<lparr>grid = [[JStr ''id'', JStr ''name''], [JStr ''r2'', JStr ''Bobby'']],
                version = 2, api_calls = 4,
                writes = [BatchUpdate [\<lparr>bu_range = \<lparr>range_sheet = ''Sheet1'', range_row = 2\<rparr>,
                                        bu_values = [[JStr ''r2'', JStr ''Bobby'']]\<rparr>]]\<rparr>,
      sync_state = Some \<lparr>last_sheet_sync_at = Some 300, last_db_sync_at = Some 300,
                         sheet_etag = Some ''v2'', sheet_revision_id = None,
                         db_last_change_id = Some 1\<rparr>,
      sync_history = [ran 0 sheet_to_db 1, ran 1 db_to_sheet 1, ran 2 sheet_to_db 1],
      conflict_rows = [],
      redis_keys = [''idempotency:op-2'', ''idempotency:op-1'', ''idempotency:op-0''],
      uuids_drawn = 3, clock = 300\<rparr>"





text \<open>
  For comparison with the callback of the worker: statements sent one after the other on
  a given connection, under the tag \<open>from_sheet\<close>.
\<close>

fun execute_all ::
  "env \<Rightarrow> nat \<Rightarrow> dml list \<Rightarrow> nat \<Rightarrow> MySQLAdapter \<Rightarrow> (js_error + nat) \<times> MySQLAdapter" where
  "execute_all ev c [] n a = (Inr n, a)"
| "execute_all ev c (q # qs) n a =
     (case connection_execute ev c q a of
        (Inl e, a') \<Rightarrow> (Inl e, a')
      | (Inr u, a') \<Rightarrow> execute_all ev c qs (n + 1) a')"

definition two_updates :: "dml list" where
  "two_updates =
     [UpdateRows ''users'' [(''id'', JStr ''r1''), (''name'', JStr ''Alice'')] [(''id'', JStr ''r1'')],
      UpdateRows ''users'' [(''id'', JStr ''r2''), (''name'', JStr ''Bob'')] [(''id'', JStr ''r2'')]]"




definition users_adapter :: MySQLAdapter where
  "users_adapter =
     connect \<lparr>tableName = ''users'', pool = None,
              server = (mysql two_edits)\<lparr>statements := 1\<rparr>\<rparr>"

section \<open>Worlds that hold nothing to synchronise\<close>






text \<open>
  The rows of the history added between two worlds, the affected rows they record, and
  whether they are the one row of a run that ended with status \<open>success\<close>.
\<close>

definition new_history :: "world \<Rightarrow> world \<Rightarrow> SyncHistory list" where
  "new_history w w' = drop (length (sync_history w)) (sync_history w')"



text \<open>The history ends with the row of the run \<open>hid\<close>, which has not been updated yet.\<close>

definition history_open :: "nat \<Rightarrow> world \<Rightarrow> bool" where
  "history_open hid w =
     (sync_history w \<noteq> [] \<and> history_id (last (sync_history w)) = hid
      \<and> rows_affected (last (sync_history w)) = 0 \<and> status (last (sync_history w)) = running)"

lemma dlq_add_all_snoc: "dlq_add_all (es @ [e]) = dlq_add e (dlq_add_all es)"
  by (simp add: dlq_add_all_def)

lemma dlq_add_all_drop: "dlq_add_all es = drop (length es - maxSize) es"
proof (induction es rule: rev_induct)
  case Nil
  show ?case by (simp add: dlq_add_all_def)
next
  case (snoc e es)
  show ?case
  proof (cases "length es < maxSize")
    case True
    then show ?thesis
      by (simp add: dlq_add_all_snoc snoc.IH dlq_add_def)
  next
    case False
    then have "Suc (length es) - maxSize = Suc (length es - maxSize)"
      by simp
    with False show ?thesis
      by (simp add: dlq_add_all_snoc snoc.IH dlq_add_def Let_def
          maxSize_def drop_Suc tl_drop)
  qed
qed

text \<open>
  C8.  The dead letter queue is a FIFO bounded by 1000.  From the empty queue, after any
  sequence of adds the depth is at most 1000 and the queue holds the most recent entries in
  insertion order; an add to a queue that is within the bound keeps it within the bound; an
  add to a queue of depth 1000 removes exactly the entry at the head and appends the new one
  at the end; after 1001 adds the depth is 1000, the queue is the sequence of the entries
  after the first, and the first one is gone when the entries are distinct.
\<close>

theorem dlq_bounded_fifo:
  "dlq_getDepth (dlq_add_all es) \<le> 1000
   \<and> dlq_add_all es = drop (length es - 1000) es
   \<and> (dlq_getDepth q \<le> 1000 \<longrightarrow> dlq_getDepth (dlq_add e q) \<le> 1000)
   \<and> (dlq_getDepth q = 1000 \<longrightarrow> dlq_add e q = tl q @ [e])
   \<and> (length es = 1001 \<longrightarrow>
        dlq_getDepth (dlq_add_all es) = 1000 \<and> dlq_add_all es = tl es
        \<and> (distinct es \<longrightarrow> hd es \<notin> set (dlq_getAll (dlq_add_all es))))"
proof -
  have a: "dlq_add_all es = drop (length es - 1000) es"
    using dlq_add_all_drop [of es] by (simp add: maxSize_def)
  have b: "dlq_getDepth (dlq_add_all es) \<le> 1000"
    by (simp add: a dlq_getDepth_def)
  have c: "dlq_getDepth q \<le> 1000 \<longrightarrow> dlq_getDepth (dlq_add e q) \<le> 1000"
    by (auto simp: dlq_getDepth_def dlq_add_def Let_def maxSize_def)
  have d: "dlq_getDepth q = 1000 \<longrightarrow> dlq_add e q = tl q @ [e]"
    by (cases q) (auto simp: dlq_getDepth_def dlq_add_def Let_def maxSize_def)
  have e: "length es = 1001 \<longrightarrow>
        dlq_getDepth (dlq_add_all es) = 1000 \<and> dlq_add_all es = tl es
        \<and> (distinct es \<longrightarrow> hd es \<notin> set (dlq_getAll (dlq_add_all es)))"
  proof
    assume l: "length es = 1001"
    then have "length es - 1000 = Suc 0"
      by simp
    then have t: "dlq_add_all es = tl es"
      using a by (simp add: drop_Suc)
    have n: "distinct es \<longrightarrow> hd es \<notin> set (tl es)"
      using l by (cases es) auto
    show "dlq_getDepth (dlq_add_all es) = 1000 \<and> dlq_add_all es = tl es
        \<and> (distinct es \<longrightarrow> hd es \<notin> set (dlq_getAll (dlq_add_all es)))"
      using l t n by (simp add: dlq_getDepth_def dlq_getAll_def)
  qed
  from a b c d e show ?thesis by blast
qed

theorem dlq_bounded_fifo_witness:
  "length sample_entries = 1001
   \<and> distinct sample_entries
   \<and> dlq_getDepth (dlq_add_all sample_entries) = 1000
   \<and> dlq_add_all sample_entries = tl sample_entries
   \<and> hd sample_entries \<notin> set (dlq_getAll (dlq_add_all sample_entries))"
proof -
  have l: "length sample_entries = 1001"
    unfolding sample_entries_def by (simp only: length_map length_upt)
  have "inj sample_entry"
    by (rule injI) (simp add: sample_entry_def)
  then have "inj_on sample_entry (set [0..<1001])"
    by (rule inj_on_subset) (rule subset_UNIV)
  then have d: "distinct sample_entries"
    unfolding sample_entries_def
    by (simp only: distinct_map distinct_upt simp_thms)
  show ?thesis
    using l d dlq_bounded_fifo [of sample_entries "[]" "sample_entry 0"]
    by blast
qed

text \<open>
  C10.  While the breaker is OPEN and the time since the last recorded failure is at most
  the configured timeout, \<^verbatim>\<open>execute\<close> throws the breaker's own error, leaves the breaker
  as it was (so OPEN), and leaves the world of the wrapped function untouched whatever that
  function is: the function is not run.
\<close>

theorem open_breaker_rejects:
  assumes "cb_state cb = OPEN"
    and "now - lastFailureTime cb \<le> cb_timeout (cb_options cb)"
  shows "execute cb now fn w
           = (Inl (Error (''Circuit breaker '' @ cb_name cb @ '' is OPEN'')), cb, w)
         \<and> cb_state (fst (snd (execute cb now fn w))) = OPEN"
  using assms by (simp add: execute_def)

theorem open_breaker_rejects_witness:
  "cb_state open_breaker = OPEN
   \<and> 301000 - lastFailureTime open_breaker \<le> cb_timeout (cb_options open_breaker)
   \<and> execute open_breaker 301000 (\<lambda>w. (Inr (), \<not> w, 301005)) False
       = (Inl (Error ''Circuit breaker google-sheets is OPEN''), open_breaker, False)"
proof -
  have s: "cb_state open_breaker = OPEN"
    by (simp add: open_breaker_def CircuitBreaker_new_def)
  have t: "301000 - lastFailureTime open_breaker \<le> cb_timeout (cb_options open_breaker)"
    by (simp add: open_breaker_def CircuitBreaker_new_def)
  have n: "cb_name open_breaker = ''google-sheets''"
    by (simp add: open_breaker_def CircuitBreaker_new_def)
  show ?thesis
    using s t n
      open_breaker_rejects [OF s t, of "\<lambda>w. (Inr (), \<not> w, 301005)" False]
    by simp
qed

text \<open>
  C2, as the code has it.  Under last-write-wins the spreadsheet wins exactly when its time
  stamp is strictly later than the table's; in every other case, equal time stamps included,
  the table wins and the resolved value is the table's value.
\<close>

theorem lww_later_side_wins:
  "(date_gt (sheetTimestamp c) (dbTimestamp c) \<longrightarrow>
      winner (resolveConflict c LAST_WRITE_WINS) = sheet
      \<and> resolvedValue (resolveConflict c LAST_WRITE_WINS) = Some (sheetValue c))
   \<and> (date_gt (dbTimestamp c) (sheetTimestamp c) \<longrightarrow>
      winner (resolveConflict c LAST_WRITE_WINS) = db
      \<and> resolvedValue (resolveConflict c LAST_WRITE_WINS) = Some (dbValue c))
   \<and> (sheetTimestamp c = dbTimestamp c \<longrightarrow>
      winner (resolveConflict c LAST_WRITE_WINS) = db
      \<and> resolvedValue (resolveConflict c LAST_WRITE_WINS) = Some (dbValue c))"
proof -
  have "date_gt a b \<Longrightarrow> \<not> date_gt b a" for a b
    by (cases a; cases b) auto
  moreover have "\<not> date_gt a a" for a
    by (cases a) auto
  ultimately show ?thesis
    by (auto simp: resolveLWW_def Let_def)
qed

theorem lww_later_side_wins_witness:
  "date_gt (sheetTimestamp (sample_conflict (Date 2000) (Date 1000)))
           (dbTimestamp (sample_conflict (Date 2000) (Date 1000)))
   \<and> winner (resolveConflict (sample_conflict (Date 2000) (Date 1000)) LAST_WRITE_WINS) = sheet
   \<and> date_gt (dbTimestamp (sample_conflict (Date 1000) (Date 2000)))
             (sheetTimestamp (sample_conflict (Date 1000) (Date 2000)))
   \<and> winner (resolveConflict (sample_conflict (Date 1000) (Date 2000)) LAST_WRITE_WINS) = db
   \<and> sheetTimestamp (sample_conflict (Date 1000) (Date 1000))
       = dbTimestamp (sample_conflict (Date 1000) (Date 1000))
   \<and> winner (resolveConflict (sample_conflict (Date 1000) (Date 1000)) LAST_WRITE_WINS) = db
   \<and> resolvedValue (resolveConflict (sample_conflict (Date 1000) (Date 1000)) LAST_WRITE_WINS)
       = Some [(''id'', JStr ''r2''), (''name'', JStr ''Bobby'')]"
  using lww_later_side_wins [of "sample_conflict (Date 2000) (Date 1000)"]
    lww_later_side_wins [of "sample_conflict (Date 1000) (Date 2000)"]
    lww_later_side_wins [of "sample_conflict (Date 1000) (Date 1000)"]
  by (simp add: sample_conflict_def)

text \<open>
  C2 as the specification states it, at equal time stamps: the spreadsheet does not win.
\<close>

theorem lww_tie_counterexample:
  "\<not> (sheetTimestamp (sample_conflict (Date 1000) (Date 1000))
        = dbTimestamp (sample_conflict (Date 1000) (Date 1000)) \<longrightarrow>
      winner (resolveConflict (sample_conflict (Date 1000) (Date 1000)) LAST_WRITE_WINS) = sheet
      \<and> resolvedValue (resolveConflict (sample_conflict (Date 1000) (Date 1000)) LAST_WRITE_WINS)
          = Some (sheetValue (sample_conflict (Date 1000) (Date 1000))))"
  by (simp add: sample_conflict_def resolveLWW_def)


lemma schedule_empty: "m \<le> a \<Longrightarrow> schedule opts rnd a m = []"
  by (simp add: schedule_def)

lemma schedule_step:
  "a < m \<Longrightarrow> schedule opts rnd a m =
     Invoked a # (if Suc a < m then [Slept (calculateDelay a opts (rnd a))] else [])
       @ schedule opts rnd (Suc a) m"
  by (simp add: schedule_def upt_conv_Cons)

lemma retry_from_schedule:
  "\<exists>m. a \<le> m \<and> (int a < maxAttempts opts \<longrightarrow> a < m) \<and> int m \<le> max (int a) (maxAttempts opts)
      \<and> snd (retry_from fn opts rnd a le) = schedule opts rnd a m"
proof (induction fn opts rnd a le rule: retry_from.induct)
  case (1 fn opts rnd attempt lastError)
  show ?case
  proof (cases "int attempt < maxAttempts opts")
    case False
    then show ?thesis
      by (subst retry_from.simps) (auto simp: schedule_empty intro!: exI [of _ attempt])
  next
    case lt: True
    show ?thesis
    proof (cases "fn attempt")
      case (Inr v)
      with lt show ?thesis
        by (subst retry_from.simps)
          (auto simp: schedule_step schedule_empty intro!: exI [of _ "Suc attempt"])
    next
      case (Inl e)
      show ?thesis
      proof (cases "nonretryable opts e")
        case True
        with lt Inl show ?thesis
          by (subst retry_from.simps)
            (auto simp: schedule_step schedule_empty intro!: exI [of _ "Suc attempt"])
      next
        case False
        from "1.IH" [OF lt Inl False refl]
        obtain m where m: "attempt + 1 \<le> m"
          "int (attempt + 1) < maxAttempts opts \<longrightarrow> attempt + 1 < m"
          "int m \<le> max (int (attempt + 1)) (maxAttempts opts)"
          "snd (retry_from fn opts rnd (attempt + 1) (Some e)) = schedule opts rnd (attempt + 1) m"
          by blast
        have p: "(int attempt < maxAttempts opts - 1) = (Suc attempt < m)"
          using m lt by auto
        have "snd (retry_from fn opts rnd attempt lastError) = schedule opts rnd attempt m"
          using lt Inl False m p
          by (subst retry_from.simps) (simp add: schedule_step [of attempt m] Let_def)
        with m lt show ?thesis
          by (intro exI [of _ m]) auto
      qed
    qed
  qed
qed


lemma retry_from_stops:
  assumes "a \<le> k" and "int k < maxAttempts opts"
    and "\<forall>j. a \<le> j \<and> j < k \<longrightarrow> (\<exists>e. fn j = Inl e \<and> \<not> nonretryable opts e)"
    and "case fn k of Inr v \<Rightarrow> True | Inl e \<Rightarrow> nonretryable opts e"
  shows "retry_from fn opts rnd a le
           = (case fn k of Inr v \<Rightarrow> Inr v | Inl e \<Rightarrow> Inl (Some e), schedule opts rnd a (Suc k))"
  using assms
proof (induction "k - a" arbitrary: a le)
  case 0
  then have "a = k" by simp
  with 0 show ?case
    by (subst retry_from.simps) (auto simp: schedule_step schedule_empty split: sum.splits)
next
  case (Suc d)
  then have lt: "a < k" by simp
  with Suc.prems obtain e where e: "fn a = Inl e" "\<not> nonretryable opts e"
    by blast
  have "retry_from fn opts rnd (Suc a) (Some e)
          = (case fn k of Inr v \<Rightarrow> Inr v | Inl e \<Rightarrow> Inl (Some e), schedule opts rnd (Suc a) (Suc k))"
    using Suc.hyps(2) Suc.prems lt by (intro Suc.hyps(1)) auto
  with e lt Suc.prems(2) show ?case
    by (subst retry_from.simps) (simp add: schedule_step [of a "Suc k"] Let_def)
qed

lemma retry_from_exhausts:
  assumes "int a \<le> maxAttempts opts"
    and "\<forall>j. a \<le> j \<and> int j < maxAttempts opts \<longrightarrow> (\<exists>e. fn j = Inl e \<and> \<not> nonretryable opts e)"
  shows "retry_from fn opts rnd a le
           = (if int a < maxAttempts opts then Inl (projl (map_sum Some id (fn (nat (maxAttempts opts) - 1)))) else Inl le,
              schedule opts rnd a (nat (maxAttempts opts)))"
  using assms
proof (induction "nat (maxAttempts opts) - a" arbitrary: a le)
  case 0
  then have "\<not> int a < maxAttempts opts" by simp
  with 0 show ?case
    by (subst retry_from.simps) (simp add: schedule_empty)
next
  case (Suc d)
  then have lt: "int a < maxAttempts opts" by simp
  with Suc.prems obtain e where e: "fn a = Inl e" "\<not> nonretryable opts e"
    by blast
  have ih: "retry_from fn opts rnd (Suc a) (Some e)
          = (if int (Suc a) < maxAttempts opts then Inl (projl (map_sum Some id (fn (nat (maxAttempts opts) - 1)))) else Inl (Some e),
              schedule opts rnd (Suc a) (nat (maxAttempts opts)))"
    using Suc.hyps(2) Suc.prems lt by (intro Suc.hyps(1)) auto
  have last: "\<not> int (Suc a) < maxAttempts opts \<Longrightarrow> nat (maxAttempts opts) - 1 = a"
    using lt by simp
  have p: "(int a < maxAttempts opts - 1) = (Suc a < nat (maxAttempts opts))"
    by auto
  show ?case
    using e lt ih last p
    by (subst retry_from.simps) (auto simp add: schedule_step [of a "nat (maxAttempts opts)"] Let_def)
qed

lemma delay_before_schedule:
  "delay_before (schedule opts rnd a m) k
     = (if a < k \<and> k < m then Some (calculateDelay (k - 1) opts (rnd (k - 1))) else None)"
proof (induction "m - a" arbitrary: a)
  case 0
  then show ?case by (simp add: schedule_empty)
next
  case (Suc d)
  then have lt: "a < m" by simp
  have ih: "delay_before (schedule opts rnd (Suc a) m) k
     = (if Suc a < k \<and> k < m then Some (calculateDelay (k - 1) opts (rnd (k - 1))) else None)"
    using Suc.hyps(2) by (intro Suc.hyps(1)) simp
  show ?case
  proof (cases "Suc a < m")
    case False
    with lt show ?thesis
      by (simp add: schedule_step [of a m] schedule_empty)
  next
    case True
    then show ?thesis
      using lt ih
      by (simp add: schedule_step [of a m] schedule_step [of "Suc a" m]) auto
  qed
qed

lemma calculateDelay_plain:
  "\<not> jitter opts \<Longrightarrow> calculateDelay k opts r = min (baseDelay opts * 2 ^ k) (maxDelay opts)"
  by (simp add: calculateDelay_def Let_def)

lemma calculateDelay_jitter:
  assumes "jitter opts" and "0 \<le> r" and "r < 1"
    and "0 \<le> min (baseDelay opts * 2 ^ k) (maxDelay opts)"
  shows "calculateDelay k opts r
           = min (baseDelay opts * 2 ^ k) (maxDelay opts)
             + (2 * r - 1) * (0.2 * min (baseDelay opts * 2 ^ k) (maxDelay opts))"
    and "0.8 * min (baseDelay opts * 2 ^ k) (maxDelay opts) \<le> calculateDelay k opts r"
    and "calculateDelay k opts r \<le> 1.2 * min (baseDelay opts * 2 ^ k) (maxDelay opts)"
proof -
  define m where "m = min (baseDelay opts * 2 ^ k) (maxDelay opts)"
  have "calculateDelay k opts r = m + (r * 2 - 1) * (m * 0.2)"
    using assms(1) by (simp add: calculateDelay_def Let_def m_def)
  then have c: "calculateDelay k opts r = m + (2 * r - 1) * (0.2 * m)"
    by (simp add: mult.commute)
  show "calculateDelay k opts r
           = min (baseDelay opts * 2 ^ k) (maxDelay opts)
             + (2 * r - 1) * (0.2 * min (baseDelay opts * 2 ^ k) (maxDelay opts))"
    using c by (simp add: m_def)
  have m0: "0 \<le> m" using assms(4) by (simp add: m_def)
  have "(2 * r - 1) * (0.2 * m) \<ge> - (0.2 * m)"
    using assms(2) m0 by (simp add: mult_left_mono algebra_simps mult_nonneg_nonneg)
  then show "0.8 * min (baseDelay opts * 2 ^ k) (maxDelay opts) \<le> calculateDelay k opts r"
    using c by (simp add: m_def)
  have "(2 * r - 1) * (0.2 * m) \<le> 0.2 * m"
    using assms(3) m0 by (simp add: mult_left_mono algebra_simps mult_nonneg_nonneg)
  then show "calculateDelay k opts r \<le> 1.2 * min (baseDelay opts * 2 ^ k) (maxDelay opts)"
    using c by (simp add: m_def)
qed

lemma invocations_schedule: "invocations (schedule opts rnd a m) = [a..<m]"
proof (induction "m - a" arbitrary: a)
  case 0
  then show ?case by (simp add: schedule_empty invocations_def)
next
  case (Suc d)
  then have lt: "a < m" by simp
  have "invocations (schedule opts rnd (Suc a) m) = [Suc a..<m]"
    using Suc.hyps(2) by (intro Suc.hyps(1)) simp
  then show ?case
    using lt by (simp add: schedule_step [of a m] invocations_def upt_conv_Cons)
qed

lemma last_schedule: "a < m \<Longrightarrow> last (schedule opts rnd a m) = Invoked (m - 1)"
proof (induction "m - a" arbitrary: a)
  case 0
  then show ?case by simp
next
  case (Suc d)
  show ?case
  proof (cases "Suc a < m")
    case False
    with Suc.prems have "m = Suc a" by simp
    then show ?thesis
      by (simp add: schedule_step [of a "Suc a"] schedule_empty)
  next
    case True
    then have "last (schedule opts rnd (Suc a) m) = Invoked (m - 1)"
      using Suc.hyps(2) by (intro Suc.hyps(1)) auto
    moreover have "schedule opts rnd (Suc a) m \<noteq> []"
      using True by (simp add: schedule_step [of "Suc a" m])
    ultimately show ?thesis
      using Suc.prems by (simp add: schedule_step [of a m])
  qed
qed

text \<open>
  C7, as the code has it.  With \<open>opts\<close> the given options over the defaults and \<open>fn k\<close>
  the outcome of the invocation numbered \<open>k\<close> (from 0):
  \<^item> the run invokes \<open>fn\<close> on \<open>0, 1, \<dots>, m - 1\<close> for some \<open>m\<close> that is at most
    \<open>maxAttempts\<close>, and the only pauses are those of \<open>schedule\<close>: one after each
    invocation but the last;
  \<^item> the first error that the classifier rejects is thrown at once, after which nothing
    else is invoked;
  \<^item> when all \<open>maxAttempts\<close> invocations fail with errors that are retried, the error of
    the last one is thrown, after exactly \<open>maxAttempts\<close> invocations;
  \<^item> no pause precedes invocation 0, and the pause before invocation \<open>k + 1\<close>, that is
    after the failed invocation \<open>k\<close>, is \<open>calculateDelay k\<close>;
  \<^item> the last event of a run is an invocation, never a pause;
  \<^item> \<open>calculateDelay k\<close> is \<open>min (baseDelay * 2 ^ k) maxDelay\<close> without jitter, and
    with jitter that value plus \<open>(2 r - 1)\<close> times a fifth of it for the random draw
    \<open>r\<close> in \<open>[0, 1)\<close>, hence within 20 percent of it.
  Delays are real numbers here, not floating-point ones.
\<close>

theorem retry_contract:
  "(\<exists>m. int m \<le> max 0 (maxAttempts (effective options))
        \<and> snd (retry fn options rnd) = schedule (effective options) rnd 0 m
        \<and> invocations (snd (retry fn options rnd)) = [0..<m])
   \<and> (\<forall>k e. int k < maxAttempts (effective options)
          \<and> (\<forall>j. j < k \<longrightarrow> (\<exists>e'. fn j = Inl e' \<and> \<not> nonretryable (effective options) e'))
          \<and> fn k = Inl e \<and> nonretryable (effective options) e
        \<longrightarrow> retry fn options rnd = (Inl (Some e), schedule (effective options) rnd 0 (Suc k)))
   \<and> (\<forall>e. 0 < maxAttempts (effective options)
          \<and> (\<forall>j. int j < maxAttempts (effective options)
                \<longrightarrow> (\<exists>e'. fn j = Inl e' \<and> \<not> nonretryable (effective options) e'))
          \<and> fn (nat (maxAttempts (effective options)) - 1) = Inl e
        \<longrightarrow> retry fn options rnd
              = (Inl (Some e),
                 schedule (effective options) rnd 0 (nat (maxAttempts (effective options)))))
   \<and> (\<forall>m k. delay_before (schedule (effective options) rnd 0 m) k
              = (if 0 < k \<and> k < m
                 then Some (calculateDelay (k - 1) (effective options) (rnd (k - 1)))
                 else None))
   \<and> (\<forall>m. 0 < m \<longrightarrow> last (schedule (effective options) rnd 0 m) = Invoked (m - 1))
   \<and> (\<forall>k r. \<not> jitter (effective options) \<longrightarrow>
          calculateDelay k (effective options) r
            = min (baseDelay (effective options) * 2 ^ k) (maxDelay (effective options)))
   \<and> (\<forall>k r. jitter (effective options) \<and> 0 \<le> r \<and> r < 1
          \<and> 0 \<le> min (baseDelay (effective options) * 2 ^ k) (maxDelay (effective options))
        \<longrightarrow> calculateDelay k (effective options) r
              = min (baseDelay (effective options) * 2 ^ k) (maxDelay (effective options))
                + (2 * r - 1)
                  * (0.2 * min (baseDelay (effective options) * 2 ^ k) (maxDelay (effective options)))
            \<and> 0.8 * min (baseDelay (effective options) * 2 ^ k) (maxDelay (effective options))
                \<le> calculateDelay k (effective options) r
            \<and> calculateDelay k (effective options) r
                \<le> 1.2 * min (baseDelay (effective options) * 2 ^ k) (maxDelay (effective options)))"
proof -
  let ?o = "effective options"
  have r: "retry fn options rnd = retry_from fn ?o rnd 0 None"
    by (simp add: retry_def effective_def)
  have c1: "\<exists>m. int m \<le> max 0 (maxAttempts ?o)
        \<and> snd (retry fn options rnd) = schedule ?o rnd 0 m
        \<and> invocations (snd (retry fn options rnd)) = [0..<m]"
    using retry_from_schedule [of 0 ?o fn rnd None]
    by (auto simp: r invocations_schedule)
  have c2: "\<forall>k e. int k < maxAttempts ?o
          \<and> (\<forall>j. j < k \<longrightarrow> (\<exists>e'. fn j = Inl e' \<and> \<not> nonretryable ?o e'))
          \<and> fn k = Inl e \<and> nonretryable ?o e
        \<longrightarrow> retry fn options rnd = (Inl (Some e), schedule ?o rnd 0 (Suc k))"
  proof (intro allI impI)
    fix k e
    assume h: "int k < maxAttempts ?o
          \<and> (\<forall>j. j < k \<longrightarrow> (\<exists>e'. fn j = Inl e' \<and> \<not> nonretryable ?o e'))
          \<and> fn k = Inl e \<and> nonretryable ?o e"
    then show "retry fn options rnd = (Inl (Some e), schedule ?o rnd 0 (Suc k))"
      using retry_from_stops [of 0 k ?o fn rnd None] by (simp add: r)
  qed
  have c3: "\<forall>e. 0 < maxAttempts ?o
          \<and> (\<forall>j. int j < maxAttempts ?o \<longrightarrow> (\<exists>e'. fn j = Inl e' \<and> \<not> nonretryable ?o e'))
          \<and> fn (nat (maxAttempts ?o) - 1) = Inl e
        \<longrightarrow> retry fn options rnd = (Inl (Some e), schedule ?o rnd 0 (nat (maxAttempts ?o)))"
  proof (intro allI impI)
    fix e
    assume h: "0 < maxAttempts ?o
          \<and> (\<forall>j. int j < maxAttempts ?o \<longrightarrow> (\<exists>e'. fn j = Inl e' \<and> \<not> nonretryable ?o e'))
          \<and> fn (nat (maxAttempts ?o) - 1) = Inl e"
    then show "retry fn options rnd = (Inl (Some e), schedule ?o rnd 0 (nat (maxAttempts ?o)))"
      using retry_from_exhausts [of 0 ?o fn rnd None] by (simp add: r)
  qed
  have c4: "\<forall>m k. delay_before (schedule ?o rnd 0 m) k
              = (if 0 < k \<and> k < m then Some (calculateDelay (k - 1) ?o (rnd (k - 1))) else None)"
    by (simp add: delay_before_schedule)
  have c5: "\<forall>m. 0 < m \<longrightarrow> last (schedule ?o rnd 0 m) = Invoked (m - 1)"
    by (simp add: last_schedule)
  have c6: "\<forall>k r. \<not> jitter ?o \<longrightarrow>
          calculateDelay k ?o r = min (baseDelay ?o * 2 ^ k) (maxDelay ?o)"
    by (simp add: calculateDelay_plain)
  have c7: "\<forall>k r. jitter ?o \<and> 0 \<le> r \<and> r < 1 \<and> 0 \<le> min (baseDelay ?o * 2 ^ k) (maxDelay ?o)
        \<longrightarrow> calculateDelay k ?o r
              = min (baseDelay ?o * 2 ^ k) (maxDelay ?o)
                + (2 * r - 1) * (0.2 * min (baseDelay ?o * 2 ^ k) (maxDelay ?o))
            \<and> 0.8 * min (baseDelay ?o * 2 ^ k) (maxDelay ?o) \<le> calculateDelay k ?o r
            \<and> calculateDelay k ?o r \<le> 1.2 * min (baseDelay ?o * 2 ^ k) (maxDelay ?o)"
    using calculateDelay_jitter [of ?o] by blast
  from c1 c2 c3 c4 c5 c6 c7 show ?thesis
    by (intro conjI)
qed

lemma opts3_effective:
  "maxAttempts (effective opts3) = 3" "baseDelay (effective opts3) = 1000"
  "maxDelay (effective opts3) = 60000" "\<not> jitter (effective opts3)"
  "nonretryable (effective opts3) e = False"
  by (simp_all add: effective_def merge_options_def opts3_def nonretryable_def)

theorem retry_contract_witness:
  "0 < maxAttempts (effective opts3)
   \<and> failing (nat (maxAttempts (effective opts3)) - 1) = Inl (Error ''503 attempt II'')
   \<and> retry failing opts3 (\<lambda>k. 0)
       = (Inl (Some (Error ''503 attempt II'')),
          [Invoked 0, Slept 1000, Invoked 1, Slept 2000, Invoked 2])
   \<and> delay_before (snd (retry failing opts3 (\<lambda>k. 0))) 2
       = Some (min (baseDelay (effective opts3) * 2 ^ 1) (maxDelay (effective opts3)))"
proof -
  have a: "0 < maxAttempts (effective opts3)"
    by (simp add: opts3_effective)
  have b: "\<forall>j. int j < maxAttempts (effective opts3)
         \<longrightarrow> (\<exists>e'. failing j = Inl e' \<and> \<not> nonretryable (effective opts3) e')"
    by (simp add: opts3_effective failing_def)
  have c: "failing (nat (maxAttempts (effective opts3)) - 1) = Inl (Error ''503 attempt II'')"
    by (simp add: opts3_effective failing_def numeral_2_eq_2)
  have s: "schedule (effective opts3) (\<lambda>k. 0) 0 3
             = [Invoked 0, Slept 1000, Invoked 1, Slept 2000, Invoked 2]"
    by (simp add: schedule_def calculateDelay_def opts3_effective upt_rec)
  have "retry failing opts3 (\<lambda>k. 0)
          = (Inl (Some (Error ''503 attempt II'')),
             schedule (effective opts3) (\<lambda>k. 0) 0 (nat (maxAttempts (effective opts3))))"
    using a b c retry_contract [of opts3 failing "\<lambda>k. 0"] by blast
  then have d: "retry failing opts3 (\<lambda>k. 0)
       = (Inl (Some (Error ''503 attempt II'')),
          [Invoked 0, Slept 1000, Invoked 1, Slept 2000, Invoked 2])"
    by (simp add: opts3_effective s)
  have e: "delay_before (snd (retry failing opts3 (\<lambda>k. 0))) 2
       = Some (min (baseDelay (effective opts3) * 2 ^ 1) (maxDelay (effective opts3)))"
    by (simp add: d opts3_effective)
  from a c d e show ?thesis
    by (intro conjI)
qed

text \<open>
  C7 as the specification states it: for the run above the pause before attempt 1 would be
  \<open>min (baseDelay * 2 ^ 1) maxDelay = 2000\<close>.  The code pauses 1000 there, the delay
  computed from the index of the attempt that has just failed.
\<close>

theorem retry_delay_counterexample:
  "\<not> (delay_before (snd (retry failing opts3 (\<lambda>k. 0))) 1
        = Some (min (baseDelay (effective opts3) * 2 ^ 1) (maxDelay (effective opts3))))"
proof -
  have "retry failing opts3 (\<lambda>k. 0)
          = (Inl (projl (map_sum Some id (failing (nat 3 - 1)))), schedule (effective opts3) (\<lambda>k. 0) 0 (nat 3))"
    using retry_from_exhausts [of 0 "effective opts3" failing "\<lambda>k. 0" None]
    by (simp add: retry_def effective_def [symmetric] opts3_effective failing_def)
  then have "delay_before (snd (retry failing opts3 (\<lambda>k. 0))) 1
          = Some (calculateDelay 0 (effective opts3) 0)"
    by (simp add: delay_before_schedule)
  then show ?thesis
    by (simp add: calculateDelay_def opts3_effective)
qed


section \<open>Change detector: the change set\<close>

lemma keyed_map_snoc:
  "keyed_map ds options (rows @ [r])
     = (case getPrimaryKeyValue ds options r of
          None \<Rightarrow> keyed_map ds options rows
        | Some key \<Rightarrow> (keyed_map ds options rows)(key \<mapsto> r))"
  unfolding keyed_map_def by simp

lemma keyed_map_find:
  "keyed_map ds options rows k
     = find (\<lambda>b. getPrimaryKeyValue ds options b = Some k) (rev rows)"
proof (induction rows rule: rev_induct)
  case Nil
  show ?case by (simp add: keyed_map_def)
next
  case (snoc r rows)
  then show ?case
    by (cases "getPrimaryKeyValue ds options r") (auto simp: keyed_map_snoc)
qed

lemma keyed_map_None:
  "(keyed_map ds options rows k = None) = (\<not> key_in ds options k rows)"
  by (auto simp: keyed_map_find find_None_iff key_in_def list_ex_iff)

lemma hasChanged_row_differs:
  "hasChanged ds options r b = row_differs ds options r b"
  by (auto simp: hasChanged_def row_differs_def Let_def list_ex_iff)

lemma detect_first_loop:
  "foldl (\<lambda>result row.
            case getPrimaryKeyValue ds options row of
              None \<Rightarrow> result
            | Some key \<Rightarrow>
                (case keyed_map ds options baseline key of
                   None \<Rightarrow> result\<lparr>inserts := inserts result @ [row]\<rparr>
                 | Some baselineRow \<Rightarrow>
                     if hasChanged ds options row baselineRow
                     then result\<lparr>updates := updates result
                                                @ [\<lparr>u_identifier = key, u_data = row\<rparr>]\<rparr>
                     else result))
     result current
   = result\<lparr>inserts := inserts result @ spec_inserts ds options current baseline,
            updates := updates result @ spec_updates ds options current baseline\<rparr>"
proof (induction current arbitrary: result)
  case Nil
  show ?case by (simp add: spec_inserts_def spec_updates_def)
next
  case (Cons row current)
  show ?case
  proof (cases "getPrimaryKeyValue ds options row")
    case None
    then show ?thesis
      by (simp add: Cons.IH spec_inserts_def spec_updates_def)
  next
    case (Some key)
    note k = Some
    show ?thesis
    proof (cases "keyed_map ds options baseline key")
      case None
      then have "\<not> key_in ds options key baseline"
        by (simp add: keyed_map_None)
      with None k show ?thesis
        using None [unfolded keyed_map_find]
        by (simp add: Cons.IH spec_inserts_def spec_updates_def)
    next
      case (Some b)
      then have "key_in ds options key baseline"
        using keyed_map_None [of ds options baseline key] by simp
      with Some k show ?thesis
        using Some [unfolded keyed_map_find]
        by (simp add: Cons.IH spec_inserts_def spec_updates_def hasChanged_row_differs)
    qed
  qed
qed

lemma detect_second_loop:
  "foldl (\<lambda>result row.
            case getPrimaryKeyValue ds options row of
              None \<Rightarrow> result
            | Some key \<Rightarrow>
                if keyed_map ds options current key = None
                then result\<lparr>deletes := deletes result @ [key]\<rparr>
                else result)
     result baseline
   = result\<lparr>deletes := deletes result @ spec_deletes ds options current baseline\<rparr>"
proof (induction baseline arbitrary: result)
  case Nil
  show ?case by (simp add: spec_deletes_def)
next
  case (Cons row baseline)
  show ?case
    by (cases "getPrimaryKeyValue ds options row")
      (simp_all add: Cons.IH spec_deletes_def keyed_map_None)
qed

lemma detect_eq_spec:
  "detect ds options current baseline
     = \<lparr>inserts = spec_inserts ds options current baseline,
        updates = spec_updates ds options current baseline,
        deletes = spec_deletes ds options current baseline\<rparr>"
  by (simp add: detect_def Let_def detect_first_loop detect_second_loop)

lemma find_Some:
  "find P xs = Some x \<Longrightarrow> x \<in> set xs \<and> P x"
  by (induction xs) (auto split: if_splits)

lemma spec_inserts_keyed:
  assumes "\<forall>r\<in>set current. getPrimaryKeyValue ds options r \<noteq> None"
  shows "spec_inserts ds options current baseline
           = filter (\<lambda>r. \<not> key_in ds options (the (getPrimaryKeyValue ds options r)) baseline)
               current"
  unfolding spec_inserts_def
  by (rule filter_cong) (use assms in auto)

lemma spec_deletes_keyed:
  assumes "\<forall>b\<in>set baseline. getPrimaryKeyValue ds options b \<noteq> None"
  shows "spec_deletes ds options current baseline
           = filter (\<lambda>k. \<not> key_in ds options k current)
               (map (\<lambda>b. the (getPrimaryKeyValue ds options b)) baseline)"
  using assms by (induction baseline) (auto simp: spec_deletes_def)

lemma spec_updates_keyed:
  assumes "\<forall>r\<in>set current. getPrimaryKeyValue ds options r \<noteq> None"
  shows "spec_updates ds options current baseline
           = map (\<lambda>r. \<lparr>u_identifier = the (getPrimaryKeyValue ds options r), u_data = r\<rparr>)
               (filter (\<lambda>r. case find (\<lambda>b. getPrimaryKeyValue ds options b
                                            = getPrimaryKeyValue ds options r) (rev baseline) of
                               None \<Rightarrow> False
                             | Some b \<Rightarrow> row_differs ds options r b)
                  current)"
  using assms by (induction current) (auto simp: spec_updates_def split: option.splits)

lemma spec_updates_only_when:
  assumes "u \<in> set (spec_updates ds options current baseline)"
  shows "u_data u \<in> set current
         \<and> getPrimaryKeyValue ds options (u_data u) = Some (u_identifier u)
         \<and> (\<exists>b\<in>set baseline. getPrimaryKeyValue ds options b = Some (u_identifier u)
               \<and> (\<exists>c\<in>set (row_keys (u_data u) @ row_keys b).
                     c \<noteq> primaryKey options
                     \<and> c \<notin> set (case ignoreColumns options of None \<Rightarrow> [] | Some cs \<Rightarrow> cs)
                     \<and> \<not> valuesEqual ds (row_get (u_data u) c) (row_get b c)))"
proof -
  from assms obtain r where r: "r \<in> set current"
    and ur: "u \<in> set (case getPrimaryKeyValue ds options r of
                        None \<Rightarrow> []
                      | Some k \<Rightarrow>
                          (case find (\<lambda>b. getPrimaryKeyValue ds options b = Some k) (rev baseline) of
                             None \<Rightarrow> []
                           | Some b \<Rightarrow> if row_differs ds options r b
                                       then [\<lparr>u_identifier = k, u_data = r\<rparr>] else []))"
    by (auto simp: spec_updates_def)
  from ur obtain k where k: "getPrimaryKeyValue ds options r = Some k"
    by (cases "getPrimaryKeyValue ds options r") auto
  from ur k obtain b
    where b: "find (\<lambda>b. getPrimaryKeyValue ds options b = Some k) (rev baseline) = Some b"
    by (cases "find (\<lambda>b. getPrimaryKeyValue ds options b = Some k) (rev baseline)") auto
  from ur k b have d: "row_differs ds options r b" and u: "u = \<lparr>u_identifier = k, u_data = r\<rparr>"
    by (auto split: if_splits)
  from b have "b \<in> set baseline" "getPrimaryKeyValue ds options b = Some k"
    using find_Some [OF b] by simp_all
  with r k d u show ?thesis
    by (auto simp: row_differs_def list_ex_iff)
qed

text \<open>
  C5.  \<open>detect\<close> returns the change set of the specification: the inserts are the current
  rows whose key no baseline row has, the deletes are the keys of the baseline rows whose
  key no current row has, and the updates are the current rows whose key is in the baseline
  and that differ from the (last) baseline row of that key in a column that is neither the
  primary key nor an ignored column, under \<open>valuesEqual\<close>.  Each list keeps the order of
  the sequence it is taken from.  Rows without a key are skipped; when every row carries
  one, the three lists are plain filters of \<open>current\<close> and of the keys of \<open>baseline\<close>,
  and an update is emitted only for a key on both sides with such a differing column.
\<close>

theorem detect_change_set:
  "detect ds options current baseline
     = \<lparr>inserts = spec_inserts ds options current baseline,
        updates = spec_updates ds options current baseline,
        deletes = spec_deletes ds options current baseline\<rparr>
   \<and> ((\<forall>r\<in>set current \<union> set baseline. getPrimaryKeyValue ds options r \<noteq> None) \<longrightarrow>
        inserts (detect ds options current baseline)
          = filter (\<lambda>r. \<not> key_in ds options (the (getPrimaryKeyValue ds options r)) baseline)
              current
        \<and> deletes (detect ds options current baseline)
          = filter (\<lambda>k. \<not> key_in ds options k current)
              (map (\<lambda>b. the (getPrimaryKeyValue ds options b)) baseline)
        \<and> updates (detect ds options current baseline)
          = map (\<lambda>r. \<lparr>u_identifier = the (getPrimaryKeyValue ds options r), u_data = r\<rparr>)
              (filter (\<lambda>r. case find (\<lambda>b. getPrimaryKeyValue ds options b
                                           = getPrimaryKeyValue ds options r) (rev baseline) of
                              None \<Rightarrow> False
                            | Some b \<Rightarrow> row_differs ds options r b)
                 current))
   \<and> (\<forall>u\<in>set (updates (detect ds options current baseline)).
        u_data u \<in> set current
        \<and> getPrimaryKeyValue ds options (u_data u) = Some (u_identifier u)
        \<and> (\<exists>b\<in>set baseline. getPrimaryKeyValue ds options b = Some (u_identifier u)
              \<and> (\<exists>c\<in>set (row_keys (u_data u) @ row_keys b).
                    c \<noteq> primaryKey options
                    \<and> c \<notin> set (case ignoreColumns options of None \<Rightarrow> [] | Some cs \<Rightarrow> cs)
                    \<and> \<not> valuesEqual ds (row_get (u_data u) c) (row_get b c))))"
proof -
  have c1: "detect ds options current baseline
     = \<lparr>inserts = spec_inserts ds options current baseline,
        updates = spec_updates ds options current baseline,
        deletes = spec_deletes ds options current baseline\<rparr>"
    by (rule detect_eq_spec)
  have c2: "(\<forall>r\<in>set current \<union> set baseline. getPrimaryKeyValue ds options r \<noteq> None) \<longrightarrow>
        inserts (detect ds options current baseline)
          = filter (\<lambda>r. \<not> key_in ds options (the (getPrimaryKeyValue ds options r)) baseline)
              current
        \<and> deletes (detect ds options current baseline)
          = filter (\<lambda>k. \<not> key_in ds options k current)
              (map (\<lambda>b. the (getPrimaryKeyValue ds options b)) baseline)
        \<and> updates (detect ds options current baseline)
          = map (\<lambda>r. \<lparr>u_identifier = the (getPrimaryKeyValue ds options r), u_data = r\<rparr>)
              (filter (\<lambda>r. case find (\<lambda>b. getPrimaryKeyValue ds options b
                                           = getPrimaryKeyValue ds options r) (rev baseline) of
                              None \<Rightarrow> False
                            | Some b \<Rightarrow> row_differs ds options r b)
                 current)"
    by (simp add: detect_eq_spec spec_inserts_keyed spec_deletes_keyed spec_updates_keyed)
  have c3: "\<forall>u\<in>set (updates (detect ds options current baseline)).
        u_data u \<in> set current
        \<and> getPrimaryKeyValue ds options (u_data u) = Some (u_identifier u)
        \<and> (\<exists>b\<in>set baseline. getPrimaryKeyValue ds options b = Some (u_identifier u)
              \<and> (\<exists>c\<in>set (row_keys (u_data u) @ row_keys b).
                    c \<noteq> primaryKey options
                    \<and> c \<notin> set (case ignoreColumns options of None \<Rightarrow> [] | Some cs \<Rightarrow> cs)
                    \<and> \<not> valuesEqual ds (row_get (u_data u) c) (row_get b c)))"
    using spec_updates_only_when [of _ ds options current baseline]
    by (simp add: detect_eq_spec)
  show ?thesis
    by (intro conjI c1 c2 c3)
qed

lemma sample_keys:
  "getPrimaryKeyValue no_dates by_id [(''id'', JStr ''r1''), (''name'', JStr ''Alice'')] = Some (KStr ''r1'')"
  "getPrimaryKeyValue no_dates by_id [(''id'', JStr ''r3''), (''name'', JStr ''Carol'')] = Some (KStr ''r3'')"
  "getPrimaryKeyValue no_dates by_id [(''id'', JStr ''r1''), (''name'', JStr ''Alicia'')] = Some (KStr ''r1'')"
  "getPrimaryKeyValue no_dates by_id [(''id'', JStr ''r2''), (''name'', JStr ''Bob'')] = Some (KStr ''r2'')"
  by (simp_all add: getPrimaryKeyValue_def by_id_def row_get_def)

lemma sample_differs:
  "row_differs no_dates by_id [(''id'', JStr ''r1''), (''name'', JStr ''Alice'')]
     [(''id'', JStr ''r1''), (''name'', JStr ''Alicia'')]"
  by (simp add: row_differs_def by_id_def row_keys_def row_get_def valuesEqual.simps
      trim_def is_space_def)

theorem detect_change_set_witness:
  "detect no_dates by_id sheet_rows table_rows
     = \<lparr>inserts = [[(''id'', JStr ''r3''), (''name'', JStr ''Carol'')]],
        updates = [\<lparr>u_identifier = KStr ''r1'',
                    u_data = [(''id'', JStr ''r1''), (''name'', JStr ''Alice'')]\<rparr>],
        deletes = [KStr ''r2'']\<rparr>"
proof -
  have k: "\<forall>r\<in>set sheet_rows \<union> set table_rows. getPrimaryKeyValue no_dates by_id r \<noteq> None"
    by (simp add: sheet_rows_def table_rows_def sample_keys)
  note t = detect_change_set [of no_dates by_id sheet_rows table_rows]
  from t k have "inserts (detect no_dates by_id sheet_rows table_rows)
          = filter (\<lambda>r. \<not> key_in no_dates by_id (the (getPrimaryKeyValue no_dates by_id r)) table_rows)
              sheet_rows"
    by blast
  then have i: "inserts (detect no_dates by_id sheet_rows table_rows)
             = [[(''id'', JStr ''r3''), (''name'', JStr ''Carol'')]]"
    by (simp add: sheet_rows_def table_rows_def sample_keys key_in_def)
  from t k have "deletes (detect no_dates by_id sheet_rows table_rows)
          = filter (\<lambda>k. \<not> key_in no_dates by_id k sheet_rows)
              (map (\<lambda>b. the (getPrimaryKeyValue no_dates by_id b)) table_rows)"
    by blast
  then have d: "deletes (detect no_dates by_id sheet_rows table_rows) = [KStr ''r2'']"
    by (simp add: sheet_rows_def table_rows_def sample_keys key_in_def)
  from t k have "updates (detect no_dates by_id sheet_rows table_rows)
          = map (\<lambda>r. \<lparr>u_identifier = the (getPrimaryKeyValue no_dates by_id r), u_data = r\<rparr>)
              (filter (\<lambda>r. case find (\<lambda>b. getPrimaryKeyValue no_dates by_id b
                                           = getPrimaryKeyValue no_dates by_id r) (rev table_rows) of
                              None \<Rightarrow> False
                            | Some b \<Rightarrow> row_differs no_dates by_id r b)
                 sheet_rows)"
    by blast
  then have u: "updates (detect no_dates by_id sheet_rows table_rows)
             = [\<lparr>u_identifier = KStr ''r1'',
                 u_data = [(''id'', JStr ''r1''), (''name'', JStr ''Alice'')]\<rparr>]"
    by (simp add: sheet_rows_def table_rows_def sample_keys sample_differs)
  from i d u show ?thesis
    by (cases "detect no_dates by_id sheet_rows table_rows") simp
qed


section \<open>The change-entries query\<close>

lemma getChangeLog_rows_set:
  "set (getChangeLog_rows wt tn options entries)
     \<subseteq> {e \<in> set entries. changeLog_where wt tn options e}"
  by (auto simp: getChangeLog_rows_def Let_def split: option.splits dest: in_set_takeD)

lemma getChangeLog_rows_sorted:
  "sorted (map changed_at (getChangeLog_rows wt tn options entries))"
  by (auto simp: getChangeLog_rows_def Let_def take_map [symmetric] sorted_wrt_take
      split: option.splits)

lemma getChangeLog_rows_unlimited:
  assumes "limit options = None \<or> limit options = Some 0"
  shows "mset (getChangeLog_rows wt tn options entries)
           = mset (filter (changeLog_where wt tn options) entries)"
  using assms by (auto simp: getChangeLog_rows_def Let_def)

lemma getChangeLog_rows_submultiset:
  "mset (getChangeLog_rows wt tn options entries)
     \<subseteq># mset (filter (changeLog_where wt tn options) entries)"
proof -
  let ?xs = "sort_key changed_at (filter (changeLog_where wt tn options) entries)"
  have "mset (take n ?xs) \<subseteq># mset ?xs" for n
    by (metis append_take_drop_id mset_append mset_subset_eq_add_left)
  then show ?thesis
    by (auto simp: getChangeLog_rows_def Let_def split: option.splits)
qed

lemma getChangeLog_rows_limited:
  assumes "limit options = Some n" and "0 < n"
  shows "length (getChangeLog_rows wt tn options entries)
           = min n (length (filter (changeLog_where wt tn options) entries))"
    and "mset (getChangeLog_rows wt tn options entries)
           \<subseteq># mset (filter (changeLog_where wt tn options) entries)"
    and "\<forall>e\<in>set (filter (changeLog_where wt tn options) entries).
           e \<notin> set (getChangeLog_rows wt tn options entries) \<longrightarrow>
           (\<forall>r\<in>set (getChangeLog_rows wt tn options entries). changed_at r \<le> changed_at e)"
proof -
  let ?xs = "sort_key changed_at (filter (changeLog_where wt tn options) entries)"
  have r: "getChangeLog_rows wt tn options entries = take n ?xs"
    using assms by (simp add: getChangeLog_rows_def)
  show "length (getChangeLog_rows wt tn options entries)
           = min n (length (filter (changeLog_where wt tn options) entries))"
    by (simp add: r min.commute)
  have "mset (take n ?xs) \<subseteq># mset ?xs"
    by (metis append_take_drop_id mset_append mset_subset_eq_add_left)
  then show "mset (getChangeLog_rows wt tn options entries)
           \<subseteq># mset (filter (changeLog_where wt tn options) entries)"
    by (simp add: r)
  have s: "sorted (map changed_at ?xs)"
    by simp
  show "\<forall>e\<in>set (filter (changeLog_where wt tn options) entries).
           e \<notin> set (getChangeLog_rows wt tn options entries) \<longrightarrow>
           (\<forall>r\<in>set (getChangeLog_rows wt tn options entries). changed_at r \<le> changed_at e)"
  proof (intro ballI impI)
    fix e r'
    assume e: "e \<in> set (filter (changeLog_where wt tn options) entries)"
      and ne: "e \<notin> set (getChangeLog_rows wt tn options entries)"
      and r': "r' \<in> set (getChangeLog_rows wt tn options entries)"
    from e have "e \<in> set ?xs" by simp
    then have "e \<in> set (take n ?xs) \<union> set (drop n ?xs)"
      by (metis append_take_drop_id set_append)
    with ne have ed: "e \<in> set (drop n ?xs)"
      by (simp add: r)
    from r' have rt: "r' \<in> set (take n ?xs)"
      by (simp add: r)
    have "sorted (map changed_at (take n ?xs @ drop n ?xs))"
      using s by simp
    then show "changed_at r' \<le> changed_at e"
      using ed rt unfolding map_append sorted_append by auto
  qed
qed


text \<open>
  C6, as the code has it.  Take a call with \<open>processed: false\<close> and a non-empty exclude
  tag \<open>t\<close>, and call matching the rows of the log that are rows of the adapter's table,
  are not processed and have a tag that is NULL or differs from \<open>t\<close>, names and tags
  compared under the collation.  Every returned row is a matching row, and no row is
  returned more often than the log holds it; the rows come ordered by \<open>changed_at\<close>
  ascending; with a limit \<open>n > 0\<close> they are \<open>min n\<close> (number of matching rows) of
  them and no matching row left out is earlier than a returned one; without a limit (or
  with limit 0) all matching rows are returned: the adapter has no default limit.
\<close>

theorem getChangeLog_contract:
  fixes wt :: "string \<Rightarrow> string" and tn :: string
  assumes "opt_processed options = Some False"
    and "excludeSourceTag options = Some t" and "t \<noteq> []"
  defines "matching \<equiv> (\<lambda>e. wt (table_name e) = wt tn \<and> \<not> processed e
                    \<and> (source_tag e = None \<or> map_option wt (source_tag e) \<noteq> Some (wt t)))"
  shows "(\<forall>e\<in>set (getChangeLog_rows wt tn options entries). e \<in> set entries \<and> matching e)
         \<and> mset (getChangeLog_rows wt tn options entries) \<subseteq># mset (filter matching entries)
         \<and> sorted (map changed_at (getChangeLog_rows wt tn options entries))
         \<and> (\<forall>n. limit options = Some n \<and> 0 < n \<longrightarrow>
               length (getChangeLog_rows wt tn options entries)
                 = min n (length (filter matching entries))
               \<and> (\<forall>e\<in>set entries.
                     matching e \<and> e \<notin> set (getChangeLog_rows wt tn options entries) \<longrightarrow>
                     (\<forall>r\<in>set (getChangeLog_rows wt tn options entries).
                        changed_at r \<le> changed_at e)))
         \<and> (limit options = None \<or> limit options = Some 0 \<longrightarrow>
               mset (getChangeLog_rows wt tn options entries) = mset (filter matching entries))"
proof -
  have w: "changeLog_where wt tn options = matching"
    using assms(1,2,3) by (auto simp: changeLog_where_def fun_eq_iff matching_def)
  have c1: "\<forall>e\<in>set (getChangeLog_rows wt tn options entries). e \<in> set entries \<and> matching e"
    using getChangeLog_rows_set [of wt tn options entries] by (auto simp: w)
  have c0: "mset (getChangeLog_rows wt tn options entries) \<subseteq># mset (filter matching entries)"
    using getChangeLog_rows_submultiset [of wt tn options entries] by (simp add: w)
  have c2: "sorted (map changed_at (getChangeLog_rows wt tn options entries))"
    by (rule getChangeLog_rows_sorted)
  have c3: "\<forall>n. limit options = Some n \<and> 0 < n \<longrightarrow>
               length (getChangeLog_rows wt tn options entries)
                 = min n (length (filter matching entries))
               \<and> (\<forall>e\<in>set entries.
                     matching e \<and> e \<notin> set (getChangeLog_rows wt tn options entries) \<longrightarrow>
                     (\<forall>r\<in>set (getChangeLog_rows wt tn options entries).
                        changed_at r \<le> changed_at e))"
  proof (intro allI impI)
    fix n
    assume n: "limit options = Some n \<and> 0 < n"
    show "length (getChangeLog_rows wt tn options entries)
                 = min n (length (filter matching entries))
               \<and> (\<forall>e\<in>set entries.
                     matching e \<and> e \<notin> set (getChangeLog_rows wt tn options entries) \<longrightarrow>
                     (\<forall>r\<in>set (getChangeLog_rows wt tn options entries).
                        changed_at r \<le> changed_at e))"
      using getChangeLog_rows_limited(1) [of options n wt tn entries]
        getChangeLog_rows_limited(3) [of options n wt tn entries] n
      by (simp add: w)
  qed
  have c4: "limit options = None \<or> limit options = Some 0 \<longrightarrow>
               mset (getChangeLog_rows wt tn options entries) = mset (filter matching entries)"
    using getChangeLog_rows_unlimited [of options wt tn entries] by (simp add: w)
  show ?thesis
    by (intro conjI c1 c0 c2 c3 c4)
qed

lemma skewed_scan:
  "getChangeLog_rows simple_collation ''users'' worker_scan skewed_log
     = [log_entry 2 10 (Some ''external''), log_entry 1 20 (Some ''external'')]"
  by code_simp

theorem getChangeLog_contract_witness:
  "opt_processed worker_scan = Some False
   \<and> excludeSourceTag worker_scan = Some ''from_sheet''
   \<and> getChangeLog_rows simple_collation ''users'' worker_scan skewed_log
       = [log_entry 2 10 (Some ''external''), log_entry 1 20 (Some ''external'')]
   \<and> sorted (map changed_at (getChangeLog_rows simple_collation ''users'' worker_scan skewed_log))
   \<and> length (getChangeLog_rows simple_collation ''users'' worker_scan skewed_log) = 2
   \<and> mset (getChangeLog_rows simple_collation ''users'' worker_scan skewed_log)
       \<subseteq># mset skewed_log"
proof -
  have a: "opt_processed worker_scan = Some False"
    and b: "excludeSourceTag worker_scan = Some ''from_sheet''"
    and c: "''from_sheet'' \<noteq> []"
    by (simp_all add: worker_scan_def)
  note t = getChangeLog_contract
             [OF a b c, where wt = simple_collation and tn = "''users''" and entries = skewed_log]
  from t have s: "sorted (map changed_at
                            (getChangeLog_rows simple_collation ''users'' worker_scan skewed_log))"
    by blast
  have m: "mset (getChangeLog_rows simple_collation ''users'' worker_scan skewed_log)
             \<subseteq># mset skewed_log"
    unfolding skewed_scan by (simp add: skewed_log_def)
  from a b s m skewed_scan show ?thesis
    by simp
qed

text \<open>
  C6 as the specification states it fails twice.  The rows come back ordered by
  \<open>changed_at\<close>, so an entry with a larger id and an earlier time stamp comes first; and
  a call that supplies no limit gets every matching row, here 1001 of them.
\<close>

theorem getChangeLog_counterexample:
  "\<not> sorted (map entry_id (getChangeLog_rows simple_collation ''users'' worker_scan skewed_log))
   \<and> \<not> length (getChangeLog_rows simple_collation ''users''
                  \<lparr>opt_processed = Some False, excludeSourceTag = Some ''from_sheet'',
                   limit = None\<rparr> long_log) \<le> 1000"
proof -
  have a: "\<not> sorted (map entry_id (getChangeLog_rows simple_collation ''users'' worker_scan skewed_log))"
    by (simp add: skewed_scan log_entry_def)
  have "filter (changeLog_where simple_collation ''users''
                  \<lparr>opt_processed = Some False, excludeSourceTag = Some ''from_sheet'',
                   limit = None\<rparr>) long_log = long_log"
    unfolding long_log_def
    by (rule filter_True) (auto simp: changeLog_where_def log_entry_def)
  then have "length (getChangeLog_rows simple_collation ''users''
                  \<lparr>opt_processed = Some False, excludeSourceTag = Some ''from_sheet'',
                   limit = None\<rparr> long_log) = length long_log"
    by (simp add: getChangeLog_rows_def)
  also have "length long_log = 1001"
    unfolding long_log_def by (simp only: length_map length_upt)
  finally have b: "\<not> length (getChangeLog_rows simple_collation ''users''
                  \<lparr>opt_processed = Some False, excludeSourceTag = Some ''from_sheet'',
                   limit = None\<rparr> long_log) \<le> 1000"
    by simp
  from a b show ?thesis
    by (intro conjI)
qed


section \<open>The adapter: what a call does to the pool and to the log\<close>

lemma tagged_growth_refl: "tagged_growth t L L"
  by (simp add: tagged_growth_def)

lemma tagged_growth_trans:
  "tagged_growth t L L' \<Longrightarrow> tagged_growth t L' L'' \<Longrightarrow> tagged_growth t L L''"
  by (auto simp: tagged_growth_def)

lemma trigger_entries_tag:
  "e \<in> set (trigger_entries s tag stmt events)
     \<Longrightarrow> source_tag e = Some (case tag of None \<Rightarrow> ''external'' | Some t \<Rightarrow> t)"
  by (auto simp: trigger_entries_def split: option.splits if_splits)

lemma apply_dml_growth:
  "tagged_growth t (change_log s) (change_log (apply_dml ev (Some t) stmt s))"
  unfolding tagged_growth_def apply_dml_def
  by (auto simp: Let_def split: prod.splits dest: trigger_entries_tag)

lemma getConnection_ok:
  assumes "adapter_ok a" and "getConnection a = r"
  shows "\<exists>c a1 p1. r = Inr (c, a1) \<and> pool a1 = Some p1 \<and> server a1 = server a
           \<and> tableName a1 = tableName a \<and> c < length (conns p1) \<and> c \<notin> set (free p1)
           \<and> pending (conns p1 ! c) = None \<and> sync_source_tag (conns p1 ! c) = None
           \<and> pool_ok p1"
proof -
  from assms(1) obtain p where p: "pool a = Some p" and ok: "pool_ok p"
    by (auto simp: adapter_ok_def split: option.splits)
  show ?thesis
  proof (cases "free p")
    case Nil
    with p ok assms(2) show ?thesis
      by (auto simp: getConnection_def pool_ok_def nth_append)
  next
    case (Cons c cs)
    with p ok assms(2) show ?thesis
      by (auto simp: getConnection_def pool_ok_def)
  qed
qed

lemma with_tagged_connection_ok:
  assumes "adapter_ok a" and "with_tagged_connection ev metadata stmt a = (r, a')"
    and "metadata_tag metadata = Some t"
  shows "adapter_ok a' \<and> tableName a' = tableName a
         \<and> tagged_growth t (change_log (server a)) (change_log (server a'))
         \<and> (stmt = Inl e \<longrightarrow> r = Inl e \<and> server a' = server a)"
proof -
  from getConnection_ok [OF assms(1) refl]
  obtain c a1 p1 where g: "getConnection a = Inr (c, a1)" and p1: "pool a1 = Some p1"
    and s1: "server a1 = server a" and t1: "tableName a1 = tableName a"
    and c: "c < length (conns p1)" "c \<notin> set (free p1)"
    and cn: "pending (conns p1 ! c) = None" and ok1: "pool_ok p1"
    by blast
  define a2 where "a2 = set_tag c (Some t) a1"
  define p2 where "p2 = p1\<lparr>conns := (conns p1)[c := (conns p1 ! c)\<lparr>sync_source_tag := Some t\<rparr>]\<rparr>"
  have a2: "pool a2 = Some p2" "server a2 = server a" "tableName a2 = tableName a"
    using p1 s1 t1 c by (simp_all add: a2_def p2_def set_tag_def update_conn_def conn_at_def)
  have c2: "conn_at p2 c = (conns p1 ! c)\<lparr>sync_source_tag := Some t\<rparr>"
    using c by (simp add: p2_def conn_at_def)
  obtain r3 a3 where e3: "(case stmt of Inl e \<Rightarrow> (Inl e, a2) | Inr q \<Rightarrow> connection_execute ev c q a2) = (r3, a3)"
    by (cases "case stmt of Inl e \<Rightarrow> (Inl e, a2) | Inr q \<Rightarrow> connection_execute ev c q a2") auto
  have a3: "pool a3 = Some p2 \<and> tableName a3 = tableName a
            \<and> tagged_growth t (change_log (server a)) (change_log (server a3))
            \<and> (stmt = Inl e \<longrightarrow> r3 = Inl e \<and> server a3 = server a)"
  proof (cases stmt)
    case (Inl e')
    with e3 a2 show ?thesis
      by (auto simp: tagged_growth_refl)
  next
    case (Inr q)
    with e3 a2 c2 cn show ?thesis
      using apply_dml_growth [of t "(server a)\<lparr>statements := statements (server a) + 1\<rparr>" ev q]
      by (auto simp: connection_execute_def Let_def tagged_growth_refl split: if_splits)
  qed
  have res: "r = r3" "a' = release c (set_tag c None a3)"
    using assms(2) assms(3) g e3 [unfolded a2_def]
    by (auto simp: with_tagged_connection_def Let_def split: prod.splits)
  have p': "pool a' = Some (p1\<lparr>conns := (conns p1)[c := (conns p1 ! c)\<lparr>sync_source_tag := None\<rparr>],
                               free := c # free p1\<rparr>)"
    using a3 c by (simp add: res release_def set_tag_def update_conn_def conn_at_def p2_def)
  have "pool_ok (p1\<lparr>conns := (conns p1)[c := (conns p1 ! c)\<lparr>sync_source_tag := None\<rparr>],
                     free := c # free p1\<rparr>)"
    using ok1 c cn
    by (auto simp: pool_ok_def nth_list_update dest!: set_update_subset_insert [THEN subsetD])
  with p' have "adapter_ok a'"
    by (simp add: adapter_ok_def)
  moreover have "server a' = server a3" "tableName a' = tableName a3"
    using a3 by (simp_all add: res release_def set_tag_def update_conn_def)
  ultimately show ?thesis
    using a3 res by simp
qed

lemma with_tagged_connection_no_statement:
  assumes "adapter_ok a" and "with_tagged_connection ev metadata (Inl e) a = (r, a')"
  shows "r = Inl e \<and> server a' = server a \<and> adapter_ok a' \<and> tableName a' = tableName a"
proof -
  from getConnection_ok [OF assms(1) refl]
  obtain c a1 p1 where g: "getConnection a = Inr (c, a1)" and p1: "pool a1 = Some p1"
    and s1: "server a1 = server a" and t1: "tableName a1 = tableName a"
    and c: "c < length (conns p1)" "c \<notin> set (free p1)"
    and cn: "pending (conns p1 ! c) = None" and ok1: "pool_ok p1"
    by blast
  define a2 where "a2 = (case metadata_tag metadata of None \<Rightarrow> a1 | Some t \<Rightarrow> set_tag c (Some t) a1)"
  have res: "r = Inl e" "a' = release c (set_tag c None a2)"
    using assms(2) g by (auto simp: with_tagged_connection_def a2_def Let_def)
  obtain tg where a2: "pool a2 = Some (p1\<lparr>conns := (conns p1)[c := (conns p1 ! c)\<lparr>sync_source_tag := tg\<rparr>]\<rparr>)"
    "server a2 = server a" "tableName a2 = tableName a"
  proof (cases "metadata_tag metadata")
    case None
    have "(conns p1)[c := (conns p1 ! c)\<lparr>sync_source_tag := sync_source_tag (conns p1 ! c)\<rparr>] = conns p1"
      by (simp add: list_update_same_conv)
    with None p1 s1 t1 show ?thesis
      by (intro that [of "sync_source_tag (conns p1 ! c)"]) (simp_all add: a2_def)
  next
    case (Some t)
    with p1 s1 t1 c show ?thesis
      by (intro that [of "Some t"]) (simp_all add: a2_def set_tag_def update_conn_def conn_at_def)
  qed
  have p': "pool a' = Some (p1\<lparr>conns := (conns p1)[c := (conns p1 ! c)\<lparr>sync_source_tag := None\<rparr>],
                               free := c # free p1\<rparr>)"
    using a2 c by (simp add: res release_def set_tag_def update_conn_def conn_at_def)
  have "pool_ok (p1\<lparr>conns := (conns p1)[c := (conns p1 ! c)\<lparr>sync_source_tag := None\<rparr>],
                     free := c # free p1\<rparr>)"
    using ok1 c cn
    by (auto simp: pool_ok_def nth_list_update dest!: set_update_subset_insert [THEN subsetD])
  with p' have "adapter_ok a'"
    by (simp add: adapter_ok_def)
  moreover have "server a' = server a" "tableName a' = tableName a"
    using a2 by (simp_all add: res release_def set_tag_def update_conn_def)
  ultimately show ?thesis
    using res by simp
qed

lemma tagged_callD:
  assumes "tagged_call t f" and "adapter_ok a" and "f a = (r, a')"
  shows "adapter_ok a'" and "tableName a' = tableName a"
    and "tagged_growth t (change_log (server a)) (change_log (server a'))"
  using assms unfolding tagged_call_def by blast+

lemma from_sheet_tag: "metadata_tag (Some (from_sheet opId)) = Some ''from_sheet''"
  by (simp add: metadata_tag_def from_sheet_def)

lemma update_rows_tagged: "tagged_call ''from_sheet'' (update_rows ev d w (Some (from_sheet opId)))"
  unfolding tagged_call_def
proof (intro allI impI)
  fix a r a'
  assume ok: "adapter_ok a" and eq: "update_rows ev d w (Some (from_sheet opId)) a = (r, a')"
  from with_tagged_connection_ok [OF ok eq [unfolded update_rows_def] from_sheet_tag]
  show "adapter_ok a' \<and> tableName a' = tableName a
        \<and> tagged_growth ''from_sheet'' (change_log (server a)) (change_log (server a'))"
    by simp
qed

lemma delete_rows_tagged: "tagged_call ''from_sheet'' (delete_rows ev w (Some (from_sheet opId)))"
  unfolding tagged_call_def
proof (intro allI impI)
  fix a r a'
  assume ok: "adapter_ok a" and eq: "delete_rows ev w (Some (from_sheet opId)) a = (r, a')"
  from with_tagged_connection_ok [OF ok eq [unfolded delete_rows_def] from_sheet_tag]
  show "adapter_ok a' \<and> tableName a' = tableName a
        \<and> tagged_growth ''from_sheet'' (change_log (server a)) (change_log (server a'))"
    by simp
qed

lemma worker_insert_throws:
  assumes "adapter_ok a" and "insert_row ev (JObj row) d None a = (r, a')"
  shows "r = Inl (TypeError ''identifier.replace is not a function'')
         \<and> server a' = server a \<and> adapter_ok a' \<and> tableName a' = tableName a"
  using with_tagged_connection_no_statement [OF assms(1), of ev None
      "TypeError ''identifier.replace is not a function''" r a'] assms(2)
  by (simp add: insert_row_def)

lemma worker_insert_tagged: "tagged_call t (insert_row ev (JObj row) d None)"
  unfolding tagged_call_def
proof (intro allI impI)
  fix a r a'
  assume ok: "adapter_ok a" and eq: "insert_row ev (JObj row) d None a = (r, a')"
  from worker_insert_throws [OF ok eq]
  show "adapter_ok a' \<and> tableName a' = tableName a
        \<and> tagged_growth t (change_log (server a)) (change_log (server a'))"
    by (simp add: tagged_growth_refl)
qed

lemma write_calls_tagged:
  "\<forall>f\<in>set (write_calls ev config opId changes). tagged_call ''from_sheet'' f"
proof
  fix f
  assume "f \<in> set (write_calls ev config opId changes)"
  then consider row d where "f = insert_row ev (JObj row) d None"
    | d w where "f = update_rows ev d w (Some (from_sheet opId))"
    | w where "f = delete_rows ev w (Some (from_sheet opId))"
    unfolding write_calls_def by auto
  then show "tagged_call ''from_sheet'' f"
    by cases (simp_all add: worker_insert_tagged update_rows_tagged delete_rows_tagged)
qed

lemma write_all_tagged:
  assumes "\<forall>f\<in>set calls. tagged_call t f"
  shows "tagged_call t (write_all calls n)"
  using assms
proof (induction calls arbitrary: n)
  case Nil
  show ?case by (simp add: tagged_call_def tagged_growth_refl)
next
  case (Cons f calls)
  then have f: "tagged_call t f" and rest: "\<And>m. tagged_call t (write_all calls m)"
    by simp_all
  show ?case
    unfolding tagged_call_def
  proof (intro allI impI)
    fix a r a'
    assume ok: "adapter_ok a" and w: "write_all (f # calls) n a = (r, a')"
    obtain r1 a1 where f1: "f a = (r1, a1)"
      by (cases "f a") auto
    note a1 = tagged_callD [OF f ok f1]
    show "adapter_ok a' \<and> tableName a' = tableName a
          \<and> tagged_growth t (change_log (server a)) (change_log (server a'))"
    proof (cases r1)
      case (Inl e)
      with w f1 have "a' = a1" by simp
      with a1 show ?thesis by simp
    next
      case (Inr u)
      with w f1 have w': "write_all calls (n + 1) a1 = (r, a')" by simp
      note a' = tagged_callD [OF rest a1(1) w']
      from tagged_growth_trans [OF a1(3) a'(3)] a'(1,2) a1(2) show ?thesis
        by simp
    qed
  qed
qed

lemma commit_noop:
  assumes "adapter_ok a"
  shows "server (commit ev c a) = server a"
proof -
  from assms obtain p where p: "pool a = Some p" and ok: "pool_ok p"
    by (cases "pool a") (simp_all add: adapter_ok_def)
  have "pending (conn_at p c) = None \<or> pending (conn_at p c) = Some []"
  proof (cases "c < length (conns p)")
    case True
    then have "conns p ! c \<in> set (conns p)" by simp
    with ok True show ?thesis
      by (simp add: conn_at_def pool_ok_def)
  next
    case False
    then show ?thesis by (simp add: conn_at_def)
  qed
  then show ?thesis
  proof
    assume "pending (conn_at p c) = None"
    with p show ?thesis by (simp add: commit_def)
  next
    assume "pending (conn_at p c) = Some []"
    with p show ?thesis by (simp add: commit_def update_conn_def)
  qed
qed

lemma beginTransaction_ok:
  assumes "pool a = Some p" and "pool_ok p" and "c < length (conns p)" and "c \<notin> set (free p)"
  shows "adapter_ok (beginTransaction c a)"
    and "server (beginTransaction c a) = server a"
    and "tableName (beginTransaction c a) = tableName a"
proof -
  let ?p = "p\<lparr>conns := (conns p)[c := (conns p ! c)\<lparr>pending := Some []\<rparr>]\<rparr>"
  have b: "beginTransaction c a = a\<lparr>pool := Some ?p\<rparr>"
    using assms(1,3) by (simp add: beginTransaction_def update_conn_def conn_at_def)
  have "\<forall>cn\<in>set (conns ?p). pending cn = None \<or> pending cn = Some []"
  proof
    fix cn
    assume "cn \<in> set (conns ?p)"
    then have "cn = (conns p ! c)\<lparr>pending := Some []\<rparr> \<or> cn \<in> set (conns p)"
      using set_update_subset_insert [of "conns p" c] by auto
    then show "pending cn = None \<or> pending cn = Some []"
      using assms(2) by (auto simp: pool_ok_def)
  qed
  moreover have "\<forall>k\<in>set (free ?p). k < length (conns ?p) \<and> pending (conns ?p ! k) = None
                    \<and> sync_source_tag (conns ?p ! k) = None"
  proof
    fix k
    assume "k \<in> set (free ?p)"
    then have k: "k \<in> set (free p)" by simp
    with assms(4) have "k \<noteq> c" by auto
    then have "conns ?p ! k = conns p ! k" by simp
    with k assms(2) show "k < length (conns ?p) \<and> pending (conns ?p ! k) = None
                    \<and> sync_source_tag (conns ?p ! k) = None"
      by (simp add: pool_ok_def)
  qed
  ultimately have "pool_ok ?p"
    using assms(2) by (simp add: pool_ok_def)
  then show "adapter_ok (beginTransaction c a)"
    by (simp add: b adapter_ok_def)
  show "server (beginTransaction c a) = server a" "tableName (beginTransaction c a) = tableName a"
    by (simp_all add: b)
qed

lemma transaction_growth:
  assumes "adapter_ok a" and "\<And>c. tagged_call t (callback c)"
    and "transaction ev callback a = (r, a')"
  shows "tagged_growth t (change_log (server a)) (change_log (server a'))
         \<and> tableName a' = tableName a"
proof -
  from assms(1) obtain p0 where p0: "pool a = Some p0"
    by (auto simp: adapter_ok_def split: option.splits)
  from getConnection_ok [OF assms(1) refl]
  obtain c a1 p1 where g: "getConnection a = Inr (c, a1)" and p1: "pool a1 = Some p1"
    and s1: "server a1 = server a" and t1: "tableName a1 = tableName a"
    and c: "c < length (conns p1)" "c \<notin> set (free p1)" and ok1: "pool_ok p1"
    by blast
  note b = beginTransaction_ok [OF p1 ok1 c]
  obtain r2 a2 where cb: "callback c (beginTransaction c a1) = (r2, a2)"
    by (cases "callback c (beginTransaction c a1)") auto
  from tagged_callD [OF assms(2) [of c] b(1) cb] b(2,3)
  have a2: "adapter_ok a2" "tableName a2 = tableName a1"
    "tagged_growth t (change_log (server a1)) (change_log (server a2))"
    by simp_all
  have "server a' = server a2 \<and> tableName a' = tableName a2"
  proof (cases r2)
    case (Inl e)
    with assms(3) p0 g cb have "a' = release c (rollback c a2)"
      by (simp add: transaction_def)
    then show ?thesis
      by (simp add: release_def rollback_def update_conn_def split: option.splits)
  next
    case (Inr v)
    with assms(3) p0 g cb have "a' = release c (commit ev c a2)"
      by (simp add: transaction_def)
    then show ?thesis
      using commit_noop [OF a2(1), of ev c]
      by (simp add: release_def commit_def update_conn_def split: option.splits)
  qed
  with a2 s1 t1 show ?thesis
    by simp
qed

lemma apply_changes_growth:
  assumes "adapter_ok a" and "apply_changes ev config opId changes a = (r, a')"
  shows "tagged_growth ''from_sheet'' (change_log (server a)) (change_log (server a'))"
  using transaction_growth [OF assms(1), of "''from_sheet''"
      "\<lambda>connection. write_all (write_calls ev config opId changes) 0" ev r a']
    write_all_tagged [OF write_calls_tagged] assms(2)
  by (simp add: apply_changes_def)

lemma query_read_only:
  assumes "query ev (\<lambda>s. (f s, s)) a = (r, a')"
  shows "change_log (server a') = change_log (server a) \<and> pool a' = pool a
         \<and> tableName a' = tableName a \<and> target_rows (server a') = target_rows (server a)"
  using assms by (auto simp: query_def Let_def split: option.splits if_splits)

lemma connect_fresh: "pool a = None \<Longrightarrow> adapter_ok (connect a)"
  by (simp add: connect_def adapter_ok_def pool_ok_def)


section \<open>What a run of the spreadsheet-to-table worker changes\<close>

lemma updateSyncHistory_fields:
  "mysql (updateSyncHistory hid f w) = mysql w" "sheets (updateSyncHistory hid f w) = sheets w"
  "conflict_rows (updateSyncHistory hid f w) = conflict_rows w"
  "sync_state (updateSyncHistory hid f w) = sync_state w"
  "redis_keys (updateSyncHistory hid f w) = redis_keys w"
  "uuids_drawn (updateSyncHistory hid f w) = uuids_drawn w"
  "clock (updateSyncHistory hid f w) = clock w"
  by (simp_all add: updateSyncHistory_def)

lemma finish_fields:
  "mysql (finish hid m w) = mysql w" "sheets (finish hid m w) = sheets w"
  "conflict_rows (finish hid m w) = conflict_rows w"
  "sync_state (finish hid m w) = sync_state w"
  "redis_keys (finish hid m w) = redis_keys w"
  "uuids_drawn (finish hid m w) = uuids_drawn w"
  "clock (finish hid m w) = clock w"
  by (simp_all add: finish_def updateSyncHistory_fields)

lemma upsertSyncState_fields:
  "mysql (upsertSyncState p w) = mysql w" "sheets (upsertSyncState p w) = sheets w"
  "conflict_rows (upsertSyncState p w) = conflict_rows w"
  "sync_history (upsertSyncState p w) = sync_history w"
  "redis_keys (upsertSyncState p w) = redis_keys w"
  "uuids_drawn (upsertSyncState p w) = uuids_drawn w"
  "clock (upsertSyncState p w) = clock w"
  by (simp_all add: upsertSyncState_def Let_def)

lemma markProcessed_fields:
  "mysql (markProcessed i w) = mysql w" "sheets (markProcessed i w) = sheets w"
  "conflict_rows (markProcessed i w) = conflict_rows w"
  "sync_state (markProcessed i w) = sync_state w"
  "sync_history (markProcessed i w) = sync_history w"
  "uuids_drawn (markProcessed i w) = uuids_drawn w"
  "clock (markProcessed i w) = clock w"
  by (simp_all add: markProcessed_def)

lemma createSyncHistory_fields:
  "mysql (snd (createSyncHistory d w)) = mysql w"
  "sheets (snd (createSyncHistory d w)) = sheets w"
  "conflict_rows (snd (createSyncHistory d w)) = conflict_rows w"
  "sync_state (snd (createSyncHistory d w)) = sync_state w"
  "redis_keys (snd (createSyncHistory d w)) = redis_keys w"
  "uuids_drawn (snd (createSyncHistory d w)) = uuids_drawn w"
  "clock (snd (createSyncHistory d w)) = clock w"
  by (simp_all add: createSyncHistory_def Let_def)

lemmas world_fields =
  updateSyncHistory_fields finish_fields upsertSyncState_fields markProcessed_fields
  createSyncHistory_fields

lemma getRange_reads:
  assumes "getRange ev h sh = (r, sh')"
  shows "grid sh' = grid sh" and "version sh' = version sh" and "writes sh' = writes sh"
    and "api_calls sh' = api_calls sh + 1"
  using assms by (auto simp: getRange_def Let_def split: if_splits)

lemma s2t_try_effect:
  assumes run: "s2t_try sc ev config hid a0 w0 = (r, a, w1)" and fresh: "pool a0 = None"
  shows "tagged_growth ''from_sheet'' (change_log (server a0)) (change_log (server a))"
    and "conflict_rows w1 = conflict_rows w0"
    and "grid (sheets w1) = grid (sheets w0)" and "version (sheets w1) = version (sheets w0)"
    and "writes (sheets w1) = writes (sheets w0)"
proof -
  let ?a1 = "connect a0"
  have ok1: "adapter_ok ?a1" and s1: "server ?a1 = server a0"
    using fresh by (simp_all add: connect_fresh) (simp add: connect_def)
  obtain r0 sh where gr: "getRange ev (case sync_state w0 of None \<Rightarrow> None | Some st \<Rightarrow> sheet_etag st)
                            (sheets w0) = (r0, sh)"
    by (cases "getRange ev (case sync_state w0 of None \<Rightarrow> None | Some st \<Rightarrow> sheet_etag st)
                 (sheets w0)") auto
  note sh = getRange_reads [OF gr]
  obtain rs a2 where sel: "select_all ev ?a1 = (rs, a2)"
    by (cases "select_all ev ?a1") auto
  from query_read_only [OF sel [unfolded select_all_def]] ok1 s1
  have a2: "change_log (server a2) = change_log (server a0)" "adapter_ok a2"
    by (simp_all add: adapter_ok_def)
  have "tagged_growth ''from_sheet'' (change_log (server a0)) (change_log (server a))
        \<and> conflict_rows w1 = conflict_rows w0
        \<and> grid (sheets w1) = grid (sheets w0) \<and> version (sheets w1) = version (sheets w0)
        \<and> writes (sheets w1) = writes (sheets w0)"
  proof (cases "googleSheetsAdapter_bound sc")
    case False
    with run s1 show ?thesis
      by (auto simp: s2t_try_def Let_def tagged_growth_refl)
  next
    case gb: True
    have "tagged_growth ''from_sheet'' (change_log (server a0)) (change_log (server a))
        \<and> conflict_rows w1 = conflict_rows w0 \<and> sheets w1 = sh"
  proof (cases r0)
    case (Inl e)
    with run gb gr s1 show ?thesis
      by (auto simp: s2t_try_def Let_def tagged_growth_refl)
  next
    case (Inr sheetData)
    note sd = Inr
    show ?thesis
    proof (cases "rr_notModified sheetData")
      case True
      with run gb gr sd s1 show ?thesis
        by (auto simp: s2t_try_def Let_def tagged_growth_refl world_fields)
    next
      case nm: False
      show ?thesis
      proof (cases rs)
        case (Inl e)
        with run gb gr sd nm sel a2 show ?thesis
          by (auto simp: s2t_try_def Let_def tagged_growth_refl)
      next
        case (Inr dbRows)
        note db = Inr
        define changes where "changes = detect (value_text ev)
            \<lparr>primaryKey = getPrimaryKeyColumn config, ignoreColumns = None\<rparr>
            (convertSheetDataToRows config (rr_values sheetData)) dbRows"
        show ?thesis
        proof (cases "inserts changes = [] \<and> updates changes = [] \<and> deletes changes = []")
          case True
          with run gb gr sd nm sel db a2 show ?thesis
            by (auto simp: s2t_try_def Let_def tagged_growth_refl world_fields changes_def)
        next
          case ch: False
          define w3 where "w3 = snd (uuidv4 ev (w0\<lparr>sheets := sh\<rparr>))"
          define opId where "opId = fst (uuidv4 ev (w0\<lparr>sheets := sh\<rparr>))"
          have u: "uuidv4 ev (w0\<lparr>sheets := sh\<rparr>) = (opId, w3)"
            by (simp add: w3_def opId_def)
          have w3: "conflict_rows w3 = conflict_rows w0" "sheets w3 = sh"
            by (simp_all add: w3_def uuidv4_def)
          show ?thesis
          proof (cases "isProcessed opId w3")
            case True
            with run gb gr sd nm sel db ch u w3 a2 show ?thesis
              by (auto simp: s2t_try_def Let_def tagged_growth_refl changes_def
                  worker_detectConflicts_def)
          next
            case np: False
            obtain ra a3 where ap: "apply_changes ev config opId
                  (changesToApply (value_text ev) config changes []) a2 = (ra, a3)"
              by (cases "apply_changes ev config opId
                  (changesToApply (value_text ev) config changes []) a2") auto
            from apply_changes_growth [OF a2(2) ap] a2(1)
            have g: "tagged_growth ''from_sheet'' (change_log (server a0)) (change_log (server a3))"
              by simp
            show ?thesis
            proof (cases ra)
              case (Inl e)
              with run gb gr sd nm sel db ch u np ap g w3 show ?thesis
                by (auto simp: s2t_try_def Let_def changes_def worker_detectConflicts_def)
            next
              case (Inr n)
              with run gb gr sd nm sel db ch u np ap g w3 show ?thesis
                by (auto simp: s2t_try_def Let_def changes_def worker_detectConflicts_def
                    world_fields)
            qed
          qed
        qed
      qed
    qed
  qed
    with sh show ?thesis
      by simp
  qed
  then show "tagged_growth ''from_sheet'' (change_log (server a0)) (change_log (server a))"
    and "conflict_rows w1 = conflict_rows w0"
    and "grid (sheets w1) = grid (sheets w0)" and "version (sheets w1) = version (sheets w0)"
    and "writes (sheets w1) = writes (sheets w0)"
    by simp_all
qed

lemma s2t_execute_effect:
  assumes "SheetToDbWorker_execute sc ev config w = (r, w')"
  shows "tagged_growth ''from_sheet'' (change_log (mysql w)) (change_log (mysql w'))"
    and "conflict_rows w' = conflict_rows w"
    and "grid (sheets w') = grid (sheets w)" and "version (sheets w') = version (sheets w)"
    and "writes (sheets w') = writes (sheets w)"
proof -
  define hid where "hid = fst (createSyncHistory sheet_to_db w)"
  define w0 where "w0 = snd (createSyncHistory sheet_to_db w)"
  define a0 where "a0 = \<lparr>tableName = db_table_name config, pool = None, server = mysql w0\<rparr>"
  obtain r1 a w1 where t: "s2t_try sc ev config hid a0 w0 = (r1, a, w1)"
    by (cases "s2t_try sc ev config hid a0 w0") auto
  have c: "createSyncHistory sheet_to_db w = (hid, w0)"
    by (simp add: hid_def w0_def)
  have a0: "pool a0 = None" "server a0 = mysql w"
    by (simp_all add: a0_def w0_def world_fields)
  note e = s2t_try_effect [OF t a0(1)]
  have w': "mysql w' = server a" "conflict_rows w' = conflict_rows w1" "sheets w' = sheets w1"
    using assms c t
    by (auto simp: SheetToDbWorker_execute_def Let_def a0_def close_def world_fields
        split: sum.splits)
  show "tagged_growth ''from_sheet'' (change_log (mysql w)) (change_log (mysql w'))"
    and "conflict_rows w' = conflict_rows w"
    and "grid (sheets w') = grid (sheets w)" and "version (sheets w') = version (sheets w)"
    and "writes (sheets w') = writes (sheets w)"
    using e w' a0(2) by (simp_all add: w0_def world_fields)
qed



lemma s2t_run_effect:
  assumes "SheetToDbWorker_run sc ev config w = (r, w')"
  shows "tagged_growth ''from_sheet'' (change_log (mysql w)) (change_log (mysql w'))"
    and "conflict_rows w' = conflict_rows w"
    and "grid (sheets w') = grid (sheets w)" and "version (sheets w') = version (sheets w)"
    and "writes (sheets w') = writes (sheets w)"
proof -
  have "tagged_growth ''from_sheet'' (change_log (mysql w)) (change_log (mysql w'))
        \<and> conflict_rows w' = conflict_rows w
        \<and> grid (sheets w') = grid (sheets w) \<and> version (sheets w') = version (sheets w)
        \<and> writes (sheets w') = writes (sheets w)"
  proof (cases "createChildLogger_bound sc")
    case False
    with assms have "w' = w"
      by (simp add: SheetToDbWorker_run_def worker_new_def)
    then show ?thesis
      by (simp add: tagged_growth_refl)
  next
    case True
    with assms have "SheetToDbWorker_execute sc ev config w = (r, w')"
      by (simp add: SheetToDbWorker_run_def worker_new_def)
    from s2t_execute_effect [OF this] show ?thesis
      by simp
  qed
  then show "tagged_growth ''from_sheet'' (change_log (mysql w)) (change_log (mysql w'))"
    and "conflict_rows w' = conflict_rows w"
    and "grid (sheets w') = grid (sheets w)" and "version (sheets w') = version (sheets w)"
    and "writes (sheets w') = writes (sheets w)"
    by simp_all
qed

text \<open>As the modules stand, a run of either worker ends in the constructor.\<close>

lemma as_written_runs:
  "SheetToDbWorker_run as_written ev config w
     = (Inl (ReferenceError ''createChildLogger is not defined''), w)"
  "DbToSheetWorker_run as_written ev config w
     = (Inl (ReferenceError ''createChildLogger is not defined''), w)"
  by (simp_all add: SheetToDbWorker_run_def DbToSheetWorker_run_def worker_new_def as_written_def)

section \<open>What a run of the table-to-spreadsheet worker changes\<close>



lemma service_write_effect:
  assumes "service_write ev wr sh = (Inr u, sh')"
  shows "writes sh' = writes sh @ [wr]"
  using assms by (auto simp: service_write_def Let_def split: if_splits)

lemma service_write_failed:
  assumes "service_write ev wr sh = (Inl e, sh')"
  shows "writes sh' = writes sh" and "grid sh' = grid sh" and "version sh' = version sh"
  using assms by (auto simp: service_write_def Let_def split: if_splits)





lemma query_effect:
  assumes "query ev f a = (r, a')"
  shows "pool a' = pool a" and "tableName a' = tableName a"
    and "(\<exists>n. r = Inl (Fault n) \<and> change_log (server a') = change_log (server a)
               \<and> target_rows (server a') = target_rows (server a))
         \<or> (\<exists>e. r = Inl (Error e) \<and> server a' = server a)
         \<or> (\<exists>v s. r = Inr v \<and> (v, s) = f ((server a)\<lparr>statements := statements (server a) + 1\<rparr>)
                   \<and> server a' = s)"
  using assms by (auto simp: query_def Let_def split: option.splits if_splits prod.splits)












subsection \<open>Runs of the workers on the example deployment\<close>

lemma first_s2t_run:
  "SheetToDbWorker_run both_bound calm users_config both_edited = (Inr (), after_first_s2t)"
  by code_simp

lemma first_t2s_run:
  "DbToSheetWorker_run both_bound calm users_config after_first_s2t = (Inr (), after_first_t2s)"
  by code_simp

lemma second_s2t_run:
  "SheetToDbWorker_run both_bound calm users_config after_first_t2s = (Inr (), after_second_s2t)"
  by code_simp







subsection \<open>Conflict detection in a spreadsheet-to-table run\<close>

text \<open>
  Row r2 of the example was edited on both sides after the last sync, in the same column.
  \<^verbatim>\<open>ConflictResolver.detectConflicts\<close> finds the conflict on that row.
\<close>

lemma resolver_detects_conflict:
  "map rowId (detectConflicts both_edited_input) = [KStr ''r2'']"
  by code_simp

text \<open>
  C4.  No run of the spreadsheet-to-table worker persists a conflict record, whatever the
  scope, the environment, the configuration and the world.  In the example the log holds
  the entry of the other writer, later than the last sync, for the row and the column that
  the spreadsheet changes.  As the module stands, the run ends in the constructor with a
  \<^verbatim>\<open>ReferenceError\<close> and leaves the world as it is.  With the two names bound, the run
  calls its own \<^verbatim>\<open>detectConflicts\<close>, which reads no entry of the log and returns no
  conflict: the run ends in success, persists no conflict record, counts no conflict and
  overwrites the value of the table with that of the spreadsheet.
\<close>

theorem s2t_run_persists_no_conflict:
  "conflict_rows (snd (SheetToDbWorker_run sc ev config w)) = conflict_rows w
   \<and> SheetToDbWorker_run as_written calm users_config both_edited
       = (Inl (ReferenceError ''createChildLogger is not defined''), both_edited)
   \<and> SheetToDbWorker_run both_bound calm users_config both_edited = (Inr (), after_first_s2t)
   \<and> conflict_rows both_edited = []
   \<and> conflict_rows after_first_s2t = []
   \<and> map conflicts_detected (sync_history after_first_s2t) = [0]
   \<and> map status (sync_history after_first_s2t) = [success]
   \<and> target_rows (mysql both_edited) = [[(''id'', JStr ''r2''), (''name'', JStr ''Bobby'')]]
   \<and> target_rows (mysql after_first_s2t) = [[(''id'', JStr ''r2''), (''name'', JStr ''Robert'')]]"
proof -
  have g: "conflict_rows (snd (SheetToDbWorker_run sc ev config w)) = conflict_rows w"
    using s2t_run_effect(2) [of sc ev config w "fst (SheetToDbWorker_run sc ev config w)"
        "snd (SheetToDbWorker_run sc ev config w)"]
    by simp
  note aw = as_written_runs(1) [of calm users_config both_edited]
  have a: "conflict_rows both_edited = []"
    and t: "target_rows (mysql both_edited) = [[(''id'', JStr ''r2''), (''name'', JStr ''Bobby'')]]"
    by (simp_all add: both_edited_def)
  have b: "conflict_rows after_first_s2t = []"
    and c: "map conflicts_detected (sync_history after_first_s2t) = [0]"
    and d: "map status (sync_history after_first_s2t) = [success]"
    and e: "target_rows (mysql after_first_s2t)
              = [[(''id'', JStr ''r2''), (''name'', JStr ''Robert'')]]"
    by (simp_all add: after_first_s2t_def ran_def)
  from g aw first_s2t_run a b c d t e show ?thesis
    by (intro conjI)
qed

subsection \<open>A failing write in a spreadsheet-to-table run\<close>

text \<open>
  The callback of the worker sends nothing on the connection of the transaction.  Had it
  sent the two updates of the example there, the failure of the second would have rolled
  the first back.
\<close>

lemma transaction_connection_rolls_back:
  "transaction second_write_fails
     (\<lambda>c a. execute_all second_write_fails c two_updates 0 (set_tag c (Some ''from_sheet'') a))
     users_adapter
   = (Inl (Fault 2),
      users_adapter
        \<lparr>pool := Some \<lparr>conns = [\<lparr>sync_source_tag = Some ''from_sheet'', pending = None\<rparr>],
                       free = [0]\<rparr>,
         server := (mysql two_edits)\<lparr>statements := 3\<rparr>\<rparr>)"
  by code_simp



section \<open>Runs on a world that holds nothing to synchronise\<close>









lemma length_updateSyncHistory [simp]:
  "length (sync_history (updateSyncHistory hid f w)) = length (sync_history w)"
  by (simp add: updateSyncHistory_def)

lemma length_finish [simp]:
  "length (sync_history (finish hid m w)) = length (sync_history w)"
  by (simp add: finish_def)



lemma history_open_sheets [simp]: "history_open hid (w\<lparr>sheets := sh\<rparr>) = history_open hid w"
  by (simp add: history_open_def)






lemma new_history_same [simp]: "new_history w w = []"
  by (simp add: new_history_def)











subsection \<open>Loop prevention\<close>







end
